theory Spec2Isabelle
  imports Main "HOL-Library.Word"
begin

unbundle bit_operations_syntax

section \<open>Bytes, keys and little-endian integers\<close>

text \<open>
  \<^verbatim>\<open>BinaryArray\<close> is a vector of \<^verbatim>\<open>uint8_t\<close>. \<^verbatim>\<open>Hash\<close>, \<^verbatim>\<open>PublicKey\<close>,
  \<^verbatim>\<open>SecretKey\<close> and \<^verbatim>\<open>chacha_key\<close> are fixed arrays of 32 bytes; they are byte
  lists here, and a theorem that depends on the size says so. \<^verbatim>\<open>Timestamp\<close> is an unsigned
  32-bit integer (it is cast down from the 64 bits a container record stores). \<^verbatim>\<open>size_t\<close>
  counts and indices are natural numbers; where \<^verbatim>\<open>Wallet.cpp\<close> relies on the width of
  \<^verbatim>\<open>size_t\<close> (64 bits here) the wrap-around is written out.
\<close>

type_synonym byte = "8 word"
type_synonym BinaryArray = "byte list"
type_synonym Hash = "byte list"
type_synonym PublicKey = "byte list"
type_synonym SecretKey = "byte list"
type_synonym chacha_key = "byte list"
type_synonym Timestamp = "32 word"

definition sizeof_Hash :: nat where
  "sizeof_Hash = 32"

definition sizeof_PublicKey :: nat where
  "sizeof_PublicKey = 32"

definition sizeof_SecretKey :: nat where
  "sizeof_SecretKey = 32"

definition sizeof_uint64_t :: nat where
  "sizeof_uint64_t = 8"

definition size_t_max1 :: nat where
  "size_t_max1 = 2 ^ 64"

text \<open>\<^verbatim>\<open>SecretKey{}\<close>, the all-zero key.\<close>

definition SecretKey0 :: SecretKey where
  "SecretKey0 = replicate sizeof_SecretKey 0"

text \<open>\<^verbatim>\<open>std::numeric_limits<Timestamp>::max()\<close>.\<close>

definition Timestamp_max :: Timestamp where
  "Timestamp_max = - 1"

text \<open>\<^verbatim>\<open>common::as_binary_array\<close>: the bytes of a \<^verbatim>\<open>std::string\<close>.\<close>

definition as_binary_array :: "string \<Rightarrow> BinaryArray" where
  "as_binary_array s = map (\<lambda>c. of_nat (of_char c)) s"

text \<open>
  Modelled from the spec: \<^verbatim>\<open>common::uint_le_to_bytes(buf, si, val)\<close> and
  \<^verbatim>\<open>common::uint_le_from_bytes(buf, si)\<close> of \<^verbatim>\<open>common/\<close> are not part of
  \<^verbatim>\<open>Wallet.cpp\<close>. The spec's layouts call the fields little-endian ("actual_len(4 LE)",
  "all multi-byte integers little-endian"): byte \<open>i\<close> holds bits \<open>8 i .. 8 i + 7\<close> of the
  value, and writing \<open>si\<close> bytes keeps the low \<open>8 si\<close> bits.
\<close>

fun uint_le_to_bytes :: "nat \<Rightarrow> nat \<Rightarrow> BinaryArray" where
  "uint_le_to_bytes 0 val = []"
| "uint_le_to_bytes (Suc si) val = of_nat (val mod 256) # uint_le_to_bytes si (val div 256)"

fun uint_le_from_bytes :: "BinaryArray \<Rightarrow> nat" where
  "uint_le_from_bytes [] = 0"
| "uint_le_from_bytes (b # bs) = unat b + 256 * uint_le_from_bytes bs"

datatype error =
    WALLET_FILE_DECRYPT_ERROR
  | WALLET_FILE_UNKNOWN_VERSION
  | WALLET_FILE_READ_ERROR
  | WALLET_FILE_WRITE_ERROR
  | Exception_101
  | StreamError
  | runtime_error
  | invariant_violated
  | out_of_range
  | sqlite_error
  | no_return

record KeyPair =
  public_key :: PublicKey
  secret_key :: SecretKey

record WalletRecord =
  spend_public_key :: PublicKey
  spend_secret_key :: SecretKey
  creation_timestamp :: Timestamp

section \<open>What \<^verbatim>\<open>Wallet.cpp\<close> takes from outside\<close>

text \<open>
  The crypto primitives, the random source, the serializers and the platform calls are
  not in \<^verbatim>\<open>Wallet.cpp\<close>; the model takes them as the fields of one record and fixes
  nothing about them. A theorem that needs a property of one of them assumes it.
  \<^item> \<open>cn_fast_hash\<close>: \<^verbatim>\<open>crypto::cn_fast_hash\<close>.
  \<^item> \<open>chacha20 key data\<close>: the bytes \<^verbatim>\<open>chacha(20, data, size, key, chacha_iv{}, out)\<close>
    writes to \<^verbatim>\<open>out\<close>; \<open>chacha8 data key iv\<close>: those of
    \<^verbatim>\<open>chacha8(data, size, key, iv, out)\<close>.
  \<^item> \<open>rand_Hash n\<close>, \<open>rand_chacha_iv n\<close>, \<open>random_keypair n\<close>: what the \<open>n\<close>-th draw from
    the random source gives as \<^verbatim>\<open>crypto::rand<Hash>()\<close>, \<^verbatim>\<open>crypto::rand<chacha_iv>()\<close>
    and \<^verbatim>\<open>crypto::random_keypair\<close>; a wallet counts its draws in \<open>rng\<close>.
  \<^item> \<open>secret_key_to_public_key\<close> (\<open>None\<close> when it returns false), \<open>keys_match\<close>,
    \<open>key_isvalid\<close>: the functions of \<^verbatim>\<open>crypto/\<close> by these names.
  \<^item> \<open>hd_spendkey base view_seed i\<close>: the key pair of index \<open>i\<close>. Modelled from the spec:
    \<^verbatim>\<open>crypto::generate_hd_spendkeys(base, view_seed, counter, &result)\<close> is not in
    \<^verbatim>\<open>Wallet.cpp\<close>; by the spec's "generate_hd_spendkeys(spend_key_base, view_seed,
    start_index, count)" it fills the vector it is given with the key pairs of the indices
    \<open>counter, counter + 1, ...\<close>.
  \<^item> \<open>hardware_concurrency\<close>: \<^verbatim>\<open>std::thread::hardware_concurrency()\<close>.
  \<^item> \<open>to_binary\<close>: \<^verbatim>\<open>seria::to_binary\<close> of a \<^verbatim>\<open>size_t\<close>; \<open>to_binary_ts\<close>: of a
    \<^verbatim>\<open>Timestamp\<close>.
  \<^item> \<open>sizeof_chacha_iv\<close>: \<^verbatim>\<open>sizeof(crypto::chacha_iv)\<close>.
  \<^item> \<open>WalletSerializerV1_load key file\<close>: what \<^verbatim>\<open>WalletSerializerV1::load\<close> reads from a
    legacy file: the view keys and the records, or the error it throws.
  \<^item> \<open>atomic_replace_file\<close>: whether \<^verbatim>\<open>platform::atomic_replace_file\<close> succeeds.
  \<^item> \<open>initial_oldest_timestamp\<close>: the value \<^verbatim>\<open>m_oldest_timestamp\<close> has in a newly
    constructed \<^verbatim>\<open>Wallet\<close> (its default member initializer in \<^verbatim>\<open>Wallet.hpp\<close>).
\<close>

record env =
  cn_fast_hash :: "BinaryArray \<Rightarrow> Hash"
  chacha20 :: "chacha_key \<Rightarrow> BinaryArray \<Rightarrow> BinaryArray"
  chacha8 :: "BinaryArray \<Rightarrow> chacha_key \<Rightarrow> BinaryArray \<Rightarrow> BinaryArray"
  rand_Hash :: "nat \<Rightarrow> Hash"
  rand_chacha_iv :: "nat \<Rightarrow> BinaryArray"
  random_keypair :: "nat \<Rightarrow> KeyPair"
  secret_key_to_public_key :: "SecretKey \<Rightarrow> PublicKey option"
  keys_match :: "SecretKey \<Rightarrow> PublicKey \<Rightarrow> bool"
  key_isvalid :: "PublicKey \<Rightarrow> bool"
  hd_spendkey :: "KeyPair \<Rightarrow> Hash \<Rightarrow> nat \<Rightarrow> KeyPair"
  hardware_concurrency :: nat
  to_binary :: "nat \<Rightarrow> BinaryArray"
  to_binary_ts :: "Timestamp \<Rightarrow> BinaryArray"
  sizeof_chacha_iv :: nat
  WalletSerializerV1_load ::
    "chacha_key \<Rightarrow> BinaryArray \<Rightarrow> error + (PublicKey \<times> SecretKey \<times> WalletRecord list)"
  atomic_replace_file :: bool
  initial_oldest_timestamp :: Timestamp

section \<open>The state of a wallet\<close>

text \<open>
  The members of \<^verbatim>\<open>class Wallet\<close> that \<^verbatim>\<open>Wallet.cpp\<close> reads and writes; \<open>m_net\<close> is
  \<^verbatim>\<open>m_currency.net\<close>. \<open>m_records_map\<close> is the \<^verbatim>\<open>std::unordered_map\<close> from spend public
  keys to indices.
\<close>

record Wallet =
  m_net :: string
  m_wallet_key :: chacha_key
  m_wallet_records :: "WalletRecord list"
  m_records_map :: "PublicKey \<rightharpoonup> nat"
  m_oldest_timestamp :: Timestamp
  m_view_public_key :: PublicKey
  m_view_secret_key :: SecretKey
  m_seed :: Hash
  m_tx_derivation_seed :: Hash
  m_history_filename_seed :: Hash
  m_history_key :: chacha_key
  rng :: nat

text \<open>\<^verbatim>\<open>m_records_map.insert(std::make_pair(k, v))\<close> keeps an entry that is already there.\<close>

definition map_insert :: "('k \<rightharpoonup> 'v) \<Rightarrow> 'k \<Rightarrow> 'v \<Rightarrow> ('k \<rightharpoonup> 'v)" where
  "map_insert m k v = (case m k of None \<Rightarrow> m(k \<mapsto> v) | Some _ \<Rightarrow> m)"

text \<open>\<^verbatim>\<open>std::vector::at\<close>: throws \<^verbatim>\<open>std::out_of_range\<close> past the end.\<close>

definition at :: "'a list \<Rightarrow> nat \<Rightarrow> error + 'a" where
  "at xs i = (if i < length xs then Inr (xs ! i) else Inl out_of_range)"

text \<open>
  \<^verbatim>\<open>derive_from_seed_legacy\<close>, \<^verbatim>\<open>derive_from_seed\<close> and \<^verbatim>\<open>derive_from_key\<close>
  (lines 76 to 91).
\<close>

definition derive_from_seed_legacy :: "env \<Rightarrow> Hash \<Rightarrow> string \<Rightarrow> Hash" where
  "derive_from_seed_legacy e seed append_str = cn_fast_hash e (as_binary_array append_str @ seed)"

definition derive_from_seed :: "env \<Rightarrow> Hash \<Rightarrow> string \<Rightarrow> Hash" where
  "derive_from_seed e seed append_str = cn_fast_hash e (seed @ as_binary_array append_str)"

definition derive_from_key :: "env \<Rightarrow> chacha_key \<Rightarrow> BinaryArray \<Rightarrow> Hash" where
  "derive_from_key e key append_bytes = cn_fast_hash e (key @ append_bytes @ key)"

definition net_append :: "string \<Rightarrow> string" where
  "net_append net = (if net = ''main'' then [] else ''_'' @ net @ ''net'')"

section \<open>HD encrypted values: \<^verbatim>\<open>WalletHD::encrypt_data\<close>, \<^verbatim>\<open>WalletHD::decrypt_data\<close>\<close>

definition MIN_SIZE :: nat where
  "MIN_SIZE = 256"

definition EXTRA_SIZE :: nat where
  "EXTRA_SIZE = sizeof_Hash + 4"

text \<open>
  The loop
  \<^verbatim>\<open>while (actual_size < data.size() + EXTRA_SIZE || actual_size < MIN_SIZE) actual_size *= 2;\<close>
  doubles modulo \<open>2 ^ 64\<close> and need not end (once \<open>actual_size\<close> wraps to 0 it stays 0):
  the result is \<open>None\<close> when it does not.
\<close>

partial_function (option) grow_actual_size :: "nat \<Rightarrow> nat \<Rightarrow> nat option" where
  "grow_actual_size need actual_size =
     (if actual_size < need \<or> actual_size < MIN_SIZE
      then grow_actual_size need ((actual_size * 2) mod size_t_max1)
      else Some actual_size)"

text \<open>
  \<^verbatim>\<open>encrypt_data\<close> (lines 950 to 966); \<open>iv\<close> is the value \<^verbatim>\<open>crypto::rand<Hash>()\<close> drew.
  \<^verbatim>\<open>large_data\<close> is created zeroed with \<open>actual_size - sizeof(Hash)\<close> bytes, the length goes
  to its first four bytes and the data after them.
\<close>

definition encrypt_data :: "env \<Rightarrow> chacha_key \<Rightarrow> Hash \<Rightarrow> BinaryArray \<Rightarrow> BinaryArray option" where
  "encrypt_data e wallet_key iv data =
     (case grow_actual_size ((length data + EXTRA_SIZE) mod size_t_max1) 1 of
        None \<Rightarrow> None
      | Some actual_size \<Rightarrow>
          (let large_data = uint_le_to_bytes 4 (length data) @ data @
                 replicate (actual_size - sizeof_Hash - 4 - length data) 0;
               key_data = wallet_key @ iv;
               key = cn_fast_hash e key_data
           in Some (iv @ chacha20 e key large_data)))"

text \<open>\<^verbatim>\<open>decrypt_data\<close> (lines 968 to 979); a failed \<^verbatim>\<open>invariant\<close> throws.\<close>

definition decrypt_data :: "env \<Rightarrow> chacha_key \<Rightarrow> BinaryArray \<Rightarrow> error + BinaryArray" where
  "decrypt_data e wallet_key value_data =
     (if \<not> (length value_data \<ge> 4 + sizeof_Hash) then Inl invariant_violated
      else
        (let iv = take sizeof_Hash value_data;
             key_data = wallet_key @ iv;
             key = cn_fast_hash e key_data;
             result = chacha20 e key (drop sizeof_Hash value_data);
             real_size = uint_le_from_bytes (take 4 result)
         in if \<not> (real_size \<le> length result - 4) then Inl invariant_violated
            else Inr (take real_size (drop 4 result))))"

text \<open>A length is a power of two: the executable test halves while the number is even.\<close>

fun is_power_of_two :: "nat \<Rightarrow> bool" where
  "is_power_of_two n =
     (if n = 0 then False else if n = 1 then True
      else if n mod 2 = 0 then is_power_of_two (n div 2) else False)"

declare is_power_of_two.simps [simp del]

section \<open>The HD wallet\<close>

text \<open>
  The SQLite database behind \<^verbatim>\<open>m_db_dbi\<close>. The tables are maps from their primary keys
  to the other columns. The wallet works inside one open transaction: \<open>txn\<close> holds the
  tables as the statements of the open transaction see them, \<open>committed\<close> the tables as of
  the last \<^verbatim>\<open>commit_txn\<close>, and \<open>commit_count\<close> counts the calls of \<^verbatim>\<open>commit_txn\<close>.
\<close>

record tables =
  unencrypted_salt :: BinaryArray
  parameters :: "Hash \<rightharpoonup> BinaryArray \<times> BinaryArray"
  labels :: "Hash \<rightharpoonup> BinaryArray \<times> BinaryArray"
  payment_queue :: "Hash \<times> Hash \<rightharpoonup> BinaryArray \<times> BinaryArray \<times> BinaryArray"

record Dbi =
  committed :: tables
  txn :: tables
  commit_count :: nat

record WalletHD = Wallet +
  m_db_dbi :: Dbi
  m_used_address_count :: nat
  m_spend_key_base :: KeyPair
  m_address_type :: byte
  m_labels :: "string \<rightharpoonup> string"

definition GENERATE_AHEAD :: nat where
  "GENERATE_AHEAD = 20000"

definition ADDRESS_COUNT_PREFIX :: string where
  "ADDRESS_COUNT_PREFIX = ''total_address_count''"

definition CREATION_TIMESTAMP_PREFIX :: string where
  "CREATION_TIMESTAMP_PREFIX = ''creation_timestamp''"

text \<open>\<^verbatim>\<open>WalletHD::commit\<close> (lines 1233 to 1236): \<^verbatim>\<open>commit_txn\<close>, then \<^verbatim>\<open>begin_txn\<close>.\<close>

definition commit :: "WalletHD \<Rightarrow> WalletHD" where
  "commit w =
     w\<lparr>m_db_dbi := (m_db_dbi w)\<lparr>committed := txn (m_db_dbi w),
                                  commit_count := commit_count (m_db_dbi w) + 1\<rparr>\<rparr>"

text \<open>
  A member function that throws leaves the object as it was at the throw: the functions of
  the wallet return the state together with the error or the value.

  \<^verbatim>\<open>WalletHD::put\<close> (lines 996 to 1008). \<^verbatim>\<open>INSERT\<close> fails on a key that is present,
  \<^verbatim>\<open>REPLACE\<close> does not fail. Each \<^verbatim>\<open>encrypt_data\<close> draws its iv.
\<close>

definition put :: "env \<Rightarrow> WalletHD \<Rightarrow> string \<Rightarrow> BinaryArray \<Rightarrow> bool \<Rightarrow> WalletHD \<times> (error + unit)" where
  "put e w key val nooverwrite =
     (let key_hash = derive_from_key e (m_wallet_key w) (as_binary_array (''db_parameters'' @ key));
          w1 = w\<lparr>rng := rng w + 1\<rparr>
      in case encrypt_data e (m_wallet_key w) (rand_Hash e (rng w)) (as_binary_array key) of
           None \<Rightarrow> (w1, Inl no_return)
         | Some enc_key \<Rightarrow>
             (let w2 = w1\<lparr>rng := rng w1 + 1\<rparr>
              in case encrypt_data e (m_wallet_key w) (rand_Hash e (rng w1)) val of
                   None \<Rightarrow> (w2, Inl no_return)
                 | Some enc_value \<Rightarrow>
                     (let t = txn (m_db_dbi w2)
                      in if nooverwrite \<and> parameters t key_hash \<noteq> None then (w2, Inl sqlite_error)
                         else (w2\<lparr>m_db_dbi := (m_db_dbi w2)\<lparr>txn :=
                                 t\<lparr>parameters := (parameters t)(key_hash \<mapsto> (enc_key, enc_value))\<rparr>\<rparr>\<rparr>,
                               Inr ()))))"

text \<open>
  \<^verbatim>\<open>WalletHD::generate_ahead1\<close> (lines 900 to 912): the records of the indices
  \<open>counter, ..., counter + n - 1\<close>, where \<open>n\<close> is the size of the vector it is given.
\<close>

definition generate_ahead1 :: "env \<Rightarrow> WalletHD \<Rightarrow> nat \<Rightarrow> nat \<Rightarrow> WalletRecord list" where
  "generate_ahead1 e w counter n =
     map (\<lambda>i. let kp = hd_spendkey e (m_spend_key_base w) (public_key (m_spend_key_base w)) (counter + i)
               in \<lparr>spend_public_key = public_key kp, spend_secret_key = secret_key kp,
                   creation_timestamp = Timestamp_max\<rparr>)
       [0..<n]"

text \<open>
  \<^verbatim>\<open>WalletHD::generate_ahead\<close> (lines 914 to 941). The worker threads fill vectors of
  their own and are joined before anything is read, so \<open>results\<close> is the list of what each
  of them computed. The last loop appends every record and enters it into the map.
\<close>

definition push_record :: "WalletHD \<Rightarrow> WalletRecord \<Rightarrow> WalletHD" where
  "push_record w record =
     w\<lparr>m_records_map := map_insert (m_records_map w) (spend_public_key record)
                          (length (m_wallet_records w)),
       m_wallet_records := m_wallet_records w @ [record]\<rparr>"

definition generate_ahead :: "env \<Rightarrow> WalletHD \<Rightarrow> WalletHD" where
  "generate_ahead e w =
     (if length (m_wallet_records w) \<ge> m_used_address_count w + GENERATE_AHEAD then w
      else
        (let delta = m_used_address_count w + GENERATE_AHEAD - length (m_wallet_records w);
             results =
               (if delta < 1000 then [generate_ahead1 e w (length (m_wallet_records w)) delta]
                else
                  (let thc = hardware_concurrency e
                   in map (\<lambda>i. let start = delta * i div thc
                                in generate_ahead1 e w (length (m_wallet_records w) + start)
                                     (delta * (i + 1) div thc - start))
                        [0..<thc]))
         in foldl push_record w (concat results)))"

text \<open>
  \<^verbatim>\<open>WalletHD::generate_new_addresses\<close> (lines 1035 to 1051). \<open>rescan_from_ct\<close> is the
  value behind the pointer of that name, returned as it is after the call. The vector
  \<open>result\<close> is built with \<^verbatim>\<open>m_wallet_records.at(was_used_address_count + i)\<close>, which throws
  past the end.
\<close>

fun records_at :: "WalletRecord list \<Rightarrow> nat \<Rightarrow> nat \<Rightarrow> error + WalletRecord list" where
  "records_at records first 0 = Inr []"
| "records_at records first (Suc n) =
     (case at records first of
        Inl err \<Rightarrow> Inl err
      | Inr r \<Rightarrow> (case records_at records (Suc first) n of
                    Inl err \<Rightarrow> Inl err
                  | Inr rs \<Rightarrow> Inr (r # rs)))"

definition generate_new_addresses_hd ::
  "env \<Rightarrow> WalletHD \<Rightarrow> SecretKey list \<Rightarrow> Timestamp \<Rightarrow> Timestamp \<Rightarrow> bool \<Rightarrow>
   WalletHD \<times> bool \<times> (error + WalletRecord list)" where
  "generate_new_addresses_hd e w sks ct now rescan_from_ct =
     (if list_ex (\<lambda>sk. sk \<noteq> SecretKey0) sks then (w, rescan_from_ct, Inl runtime_error)
      else if sks = [] then (w, rescan_from_ct, Inr [])
      else
        (let was_used_address_count = m_used_address_count w;
             w1 = w\<lparr>m_used_address_count := m_used_address_count w + length sks\<rparr>;
             w2 = generate_ahead e w1
         in case records_at (m_wallet_records w2) was_used_address_count (length sks) of
              Inl err \<Rightarrow> (w2, rescan_from_ct, Inl err)
            | Inr result \<Rightarrow>
                (case put e w2 ADDRESS_COUNT_PREFIX (to_binary e (m_used_address_count w2)) False of
                   (w3, Inl err) \<Rightarrow> (w3, rescan_from_ct, Inl err)
                 | (w3, Inr _) \<Rightarrow> (commit w3, rescan_from_ct, Inr result))))"

text \<open>\<^verbatim>\<open>WalletHD::on_first_output_found\<close> (lines 1136 to 1142).\<close>

definition on_first_output_found_hd :: "env \<Rightarrow> WalletHD \<Rightarrow> Timestamp \<Rightarrow> WalletHD \<times> (error + unit)" where
  "on_first_output_found_hd e w ts =
     (if m_oldest_timestamp w \<noteq> 0 \<or> ts = 0 then (w, Inr ())
      else
        (case put e w (CREATION_TIMESTAMP_PREFIX @ net_append (m_net w)) (to_binary_ts e ts) False of
           (w1, Inl err) \<Rightarrow> (w1, Inl err)
         | (w1, Inr _) \<Rightarrow> (commit w1, Inr ())))"

text \<open>
  The payment queue (lines 1191 to 1207 and 1238 to 1251). A row is stored under the pair
  of hashes of its transaction id and its net; \<^verbatim>\<open>REPLACE\<close> and \<^verbatim>\<open>DELETE\<close> do not fail.
  \<^verbatim>\<open>tid.data[0] == 'x'\<close> compares the first of the 32 bytes of \<open>tid\<close> with 120.
\<close>

definition payment_queue_key :: "env \<Rightarrow> WalletHD \<Rightarrow> Hash \<Rightarrow> string \<Rightarrow> Hash \<times> Hash" where
  "payment_queue_key e w tid net =
     (derive_from_key e (m_wallet_key w) (as_binary_array ''db_payment_queue_tid'' @ tid),
      derive_from_key e (m_wallet_key w) (as_binary_array (''db_payment_queue_net'' @ net)))"

definition payment_queue_add3 ::
  "env \<Rightarrow> WalletHD \<Rightarrow> Hash \<Rightarrow> string \<Rightarrow> BinaryArray \<Rightarrow> WalletHD \<times> (error + unit)" where
  "payment_queue_add3 e w tid net binary_transaction =
     (let k = payment_queue_key e w tid net;
          w1 = w\<lparr>rng := rng w + 1\<rparr>
      in case encrypt_data e (m_wallet_key w) (rand_Hash e (rng w)) tid of
           None \<Rightarrow> (w1, Inl no_return)
         | Some enc_tid \<Rightarrow>
             (let w2 = w1\<lparr>rng := rng w1 + 1\<rparr>
              in case encrypt_data e (m_wallet_key w) (rand_Hash e (rng w1)) (as_binary_array net) of
                   None \<Rightarrow> (w2, Inl no_return)
                 | Some enc_net \<Rightarrow>
                     (let w3 = w2\<lparr>rng := rng w2 + 1\<rparr>
                      in case encrypt_data e (m_wallet_key w) (rand_Hash e (rng w2)) binary_transaction of
                           None \<Rightarrow> (w3, Inl no_return)
                         | Some enc_value \<Rightarrow>
                             (let t = txn (m_db_dbi w3)
                              in (w3\<lparr>m_db_dbi := (m_db_dbi w3)\<lparr>txn :=
                                    t\<lparr>payment_queue := (payment_queue t)(k \<mapsto> (enc_tid, enc_net, enc_value))\<rparr>\<rparr>\<rparr>,
                                  Inr ())))))"

definition payment_queue_add_hd :: "env \<Rightarrow> WalletHD \<Rightarrow> Hash \<Rightarrow> BinaryArray \<Rightarrow> WalletHD \<times> (error + unit)" where
  "payment_queue_add_hd e w tid binary_transaction =
     payment_queue_add3 e w tid (m_net w) binary_transaction"

definition first_byte_is_x :: "Hash \<Rightarrow> bool" where
  "first_byte_is_x tid = (case tid of [] \<Rightarrow> False | b # _ \<Rightarrow> b = 120)"

definition payment_queue_remove_hd :: "env \<Rightarrow> WalletHD \<Rightarrow> Hash \<Rightarrow> WalletHD" where
  "payment_queue_remove_hd e w tid =
     (let k = payment_queue_key e w tid (m_net w);
          t = txn (m_db_dbi w);
          w1 = w\<lparr>m_db_dbi := (m_db_dbi w)\<lparr>txn := t\<lparr>payment_queue := (payment_queue t)(k := None)\<rparr>\<rparr>\<rparr>
      in if first_byte_is_x tid then commit w1 else w1)"

section \<open>The container wallet\<close>

text \<open>
  \<^verbatim>\<open>platform::FileStream\<close> is not in \<^verbatim>\<open>Wallet.cpp\<close>. A stream is the bytes of its file,
  a position, and whether it was opened for reading only. \<^verbatim>\<open>read\<close> gives the requested
  bytes or throws when fewer are left; \<^verbatim>\<open>write\<close> overwrites at the position and extends
  the file; \<^verbatim>\<open>write\<close> and \<^verbatim>\<open>truncate\<close> throw on a stream opened for reading only;
  \<^verbatim>\<open>fsync\<close> changes nothing here.
\<close>

record FileStream =
  content :: BinaryArray
  pos :: nat
  read_only :: bool

definition f_read :: "FileStream \<Rightarrow> nat \<Rightarrow> error + BinaryArray \<times> FileStream" where
  "f_read f n =
     (if pos f + n \<le> length (content f)
      then Inr (take n (drop (pos f) (content f)), f\<lparr>pos := pos f + n\<rparr>)
      else Inl StreamError)"

definition f_write :: "FileStream \<Rightarrow> BinaryArray \<Rightarrow> error + FileStream" where
  "f_write f bytes =
     (if read_only f then Inl StreamError
      else Inr (f\<lparr>content := take (pos f) (content f @ replicate (pos f - length (content f)) 0) @
                              bytes @ drop (pos f + length bytes) (content f),
                   pos := pos f + length bytes\<rparr>))"

definition f_seek :: "FileStream \<Rightarrow> nat \<Rightarrow> FileStream" where
  "f_seek f p = f\<lparr>pos := p\<rparr>"

definition f_truncate :: "FileStream \<Rightarrow> nat \<Rightarrow> error + FileStream" where
  "f_truncate f n = (if read_only f then Inl StreamError else Inr (f\<lparr>content := take n (content f)\<rparr>))"

record WalletContainerStorage = Wallet +
  m_file :: "FileStream option"

definition SERIALIZATION_VERSION_V2 :: nat where
  "SERIALIZATION_VERSION_V2 = 6"

definition CHECK_KEYS_COUNT :: nat where
  "CHECK_KEYS_COUNT = 128"

text \<open>
  \<^verbatim>\<open>struct EncryptedWalletRecord\<close> and \<^verbatim>\<open>struct ContainerStoragePrefix\<close>, both packed
  (lines 120 to 136).
\<close>

record EncryptedWalletRecord =
  iv :: BinaryArray
  data :: BinaryArray

definition sizeof_data :: nat where
  "sizeof_data = sizeof_PublicKey + sizeof_SecretKey + sizeof_uint64_t"

definition sizeof_EncryptedWalletRecord :: "env \<Rightarrow> nat" where
  "sizeof_EncryptedWalletRecord e = sizeof_chacha_iv e + sizeof_data"

definition sizeof_ContainerStoragePrefix :: "env \<Rightarrow> nat" where
  "sizeof_ContainerStoragePrefix e = sizeof_chacha_iv e + sizeof_EncryptedWalletRecord e"

definition EncryptedWalletRecord_of_bytes :: "env \<Rightarrow> BinaryArray \<Rightarrow> EncryptedWalletRecord" where
  "EncryptedWalletRecord_of_bytes e bs = \<lparr>iv = take (sizeof_chacha_iv e) bs, data = drop (sizeof_chacha_iv e) bs\<rparr>"

definition bytes_of_EncryptedWalletRecord :: "EncryptedWalletRecord \<Rightarrow> BinaryArray" where
  "bytes_of_EncryptedWalletRecord r = iv r @ data r"

text \<open>A buffer of \<open>n\<close> bytes, created zeroed, after \<open>bytes\<close> were written to its start.\<close>

definition buffer :: "nat \<Rightarrow> BinaryArray \<Rightarrow> BinaryArray" where
  "buffer n bytes = take n (bytes @ replicate n 0)"

text \<open>
  \<^verbatim>\<open>decrypt_key_pair\<close> and \<^verbatim>\<open>encrypt_key_pair\<close> (lines 138 to 157); \<open>new_iv\<close> is the value
  \<^verbatim>\<open>crypto::rand<crypto::chacha_iv>()\<close> drew. The cast to \<^verbatim>\<open>Timestamp\<close> keeps the low 32
  bits of the stored 64.
\<close>

definition decrypt_key_pair ::
  "env \<Rightarrow> EncryptedWalletRecord \<Rightarrow> chacha_key \<Rightarrow> PublicKey \<times> SecretKey \<times> Timestamp" where
  "decrypt_key_pair e r key =
     (let rec_data = buffer sizeof_data (chacha8 e (data r) key (iv r))
      in (take sizeof_PublicKey rec_data,
          take sizeof_SecretKey (drop sizeof_PublicKey rec_data),
          of_nat (uint_le_from_bytes
            (take sizeof_uint64_t (drop (sizeof_PublicKey + sizeof_SecretKey) rec_data)))))"

definition encrypt_key_pair ::
  "env \<Rightarrow> BinaryArray \<Rightarrow> PublicKey \<Rightarrow> SecretKey \<Rightarrow> Timestamp \<Rightarrow> chacha_key \<Rightarrow> EncryptedWalletRecord" where
  "encrypt_key_pair e new_iv pk sk ct key =
     (let rec_data = buffer sizeof_data
            (buffer sizeof_PublicKey pk @ buffer sizeof_SecretKey sk @
             uint_le_to_bytes sizeof_uint64_t (unat ct))
      in \<lparr>iv = new_iv, data = buffer sizeof_data (chacha8 e rec_data key new_iv)\<rparr>)"

text \<open>
  \<^verbatim>\<open>WalletContainerStorage::wallet_file_size\<close> (lines 164 to 166), computed in
  \<^verbatim>\<open>size_t\<close>.
\<close>

definition wallet_file_size :: "env \<Rightarrow> nat \<Rightarrow> nat" where
  "wallet_file_size e records =
     (1 + sizeof_ContainerStoragePrefix e + sizeof_uint64_t * 2 +
      sizeof_EncryptedWalletRecord e * records) mod size_t_max1"

text \<open>
  Modelled from the spec: \<^verbatim>\<open>is_view_only\<close> and \<^verbatim>\<open>get_actual_records_count\<close> are defined
  in \<^verbatim>\<open>Wallet.hpp\<close>. By the spec, \<^verbatim>\<open>is_view_only()\<close> is "true iff the first record has no
  spend secret", and \<^verbatim>\<open>get_actual_records_count()\<close> is "for container: all records".
\<close>

definition is_view_only :: "'a Wallet_scheme \<Rightarrow> error + bool" where
  "is_view_only w =
     (case at (m_wallet_records w) 0 of
        Inl err \<Rightarrow> Inl err
      | Inr r \<Rightarrow> Inr (spend_secret_key r = SecretKey0))"

definition get_actual_records_count :: "WalletContainerStorage \<Rightarrow> nat" where
  "get_actual_records_count w = length (m_wallet_records w)"

subsection \<open>\<^verbatim>\<open>load_container_storage\<close> (lines 168 to 234)\<close>

text \<open>The bytes of \<open>n\<close> consecutive structures of \<open>sz\<close> bytes each.\<close>

fun split_records :: "nat \<Rightarrow> nat \<Rightarrow> BinaryArray \<Rightarrow> BinaryArray list" where
  "split_records sz 0 bs = []"
| "split_records sz (Suc n) bs = take sz bs # split_records sz n (drop sz bs)"

text \<open>
  Lines 169 to 194: the three reads, the version check, the view keys, the item count with
  its guard, and the read of all encrypted records. The result is the wallet with its view
  keys set and the stream after the reads, \<open>item_count\<close>, and \<^verbatim>\<open>all_encrypted\<close>.
\<close>

definition load_container_header ::
  "env \<Rightarrow> WalletContainerStorage \<Rightarrow> FileStream \<Rightarrow>
   error + WalletContainerStorage \<times> nat \<times> EncryptedWalletRecord list" where
  "load_container_header e w f =
     (case f_read f 1 of
        Inl err \<Rightarrow> Inl err
      | Inr (version_data, f1) \<Rightarrow>
     (case f_read f1 (sizeof_ContainerStoragePrefix e) of
        Inl err \<Rightarrow> Inl err
      | Inr (prefix, f2) \<Rightarrow>
     (case f_read f2 (2 * sizeof_uint64_t) of
        Inl err \<Rightarrow> Inl err
      | Inr (count_capacity_data, f3) \<Rightarrow>
          (let version = uint_le_from_bytes version_data;
               f_item_capacity = uint_le_from_bytes (take sizeof_uint64_t count_capacity_data);
               f_item_count = uint_le_from_bytes (drop sizeof_uint64_t count_capacity_data)
           in if version < SERIALIZATION_VERSION_V2 then Inl WALLET_FILE_DECRYPT_ERROR
              else
                (let encrypted_view_keys =
                       EncryptedWalletRecord_of_bytes e (drop (sizeof_chacha_iv e) prefix);
                     (vpk, vsk, creation_timestamp) =
                       decrypt_key_pair e encrypted_view_keys (m_wallet_key w);
                     w1 = w\<lparr>m_view_public_key := vpk, m_view_secret_key := vsk\<rparr>
                 in if \<not> keys_match e vsk vpk then Inl WALLET_FILE_DECRYPT_ERROR
                    else
                      (let item_count = min f_item_count f_item_capacity
                       in if item_count > (size_t_max1 - 1) div sizeof_EncryptedWalletRecord e
                          then Inl WALLET_FILE_DECRYPT_ERROR
                          else
                            (case f_read f3 (sizeof_EncryptedWalletRecord e * item_count) of
                               Inl err \<Rightarrow> Inl err
                             | Inr (bytes, f4) \<Rightarrow>
                                 Inr (w1\<lparr>m_file := Some f4\<rparr>, item_count,
                                      map (EncryptedWalletRecord_of_bytes e)
                                        (split_records (sizeof_EncryptedWalletRecord e) item_count
                                           bytes)))))))))"

text \<open>
  Lines 197 to 223, the loop over \<^verbatim>\<open>all_encrypted\<close>: \<open>i\<close> is the index of the first
  record of the list. \<open>item_count - CHECK_KEYS_COUNT\<close> is computed in \<^verbatim>\<open>size_t\<close>.
\<close>

fun load_records ::
  "env \<Rightarrow> nat \<Rightarrow> nat \<Rightarrow> bool \<Rightarrow> EncryptedWalletRecord list \<Rightarrow> WalletContainerStorage \<Rightarrow>
   error + WalletContainerStorage" where
  "load_records e item_count i tracking_mode [] w = Inr w"
| "load_records e item_count i tracking_mode (r # rs) w =
     (let (pk, sk, ct) = decrypt_key_pair e r (m_wallet_key w);
          wallet_record = \<lparr>spend_public_key = pk, spend_secret_key = sk, creation_timestamp = ct\<rparr>;
          tracking_mode' = (if i = 0 then sk = SecretKey0 else tracking_mode)
      in if i \<noteq> 0 \<and> ((tracking_mode \<and> sk \<noteq> SecretKey0) \<or> (\<not> tracking_mode \<and> sk = SecretKey0))
         then Inl WALLET_FILE_DECRYPT_ERROR
         else if (i < CHECK_KEYS_COUNT \<or>
                  i \<ge> (item_count + size_t_max1 - CHECK_KEYS_COUNT) mod size_t_max1) \<and>
                 (if sk \<noteq> SecretKey0 then \<not> keys_match e sk pk else \<not> key_isvalid e pk)
         then Inl WALLET_FILE_DECRYPT_ERROR
         else load_records e item_count (i + 1) tracking_mode' rs
                (w\<lparr>m_oldest_timestamp := min (m_oldest_timestamp w) ct,
                   m_records_map := map_insert (m_records_map w) pk (length (m_wallet_records w)),
                   m_wallet_records := m_wallet_records w @ [wallet_record]\<rparr>))"

text \<open>Lines 224 to 233: a longer file is truncated, and a failure to do so is ignored.\<close>

definition truncate_legacy :: "env \<Rightarrow> nat \<Rightarrow> WalletContainerStorage \<Rightarrow> WalletContainerStorage" where
  "truncate_legacy e item_count w =
     (case m_file w of
        None \<Rightarrow> w
      | Some f \<Rightarrow>
          (let file_size = length (content f);
               should_be_file_size = wallet_file_size e item_count;
               f1 = f_seek f file_size
           in if file_size > should_be_file_size
              then (case f_truncate f1 should_be_file_size of
                      Inl err \<Rightarrow> w\<lparr>m_file := Some f1\<rparr>
                    | Inr f2 \<Rightarrow> w\<lparr>m_file := Some f2\<rparr>)
              else w\<lparr>m_file := Some f1\<rparr>))"

definition load_container_storage ::
  "env \<Rightarrow> WalletContainerStorage \<Rightarrow> FileStream \<Rightarrow> error + WalletContainerStorage" where
  "load_container_storage e w f =
     (case load_container_header e w f of
        Inl err \<Rightarrow> Inl err
      | Inr (w1, item_count, all_encrypted) \<Rightarrow>
          (case load_records e item_count 0 False all_encrypted w1 of
             Inl err \<Rightarrow> Inl err
           | Inr w2 \<Rightarrow> Inr (truncate_legacy e item_count w2)))"

subsection \<open>\<^verbatim>\<open>save\<close>, \<^verbatim>\<open>load\<close> and \<^verbatim>\<open>save_and_check\<close>\<close>

text \<open>
  \<^verbatim>\<open>WalletContainerStorage::save\<close> (lines 356 to 378): the bytes written to the new file,
  and the count of random draws after the ivs were drawn. \<^verbatim>\<open>prefix.next_iv\<close> stays zeroed.
\<close>

fun save_records ::
  "env \<Rightarrow> chacha_key \<Rightarrow> bool \<Rightarrow> nat \<Rightarrow> WalletRecord list \<Rightarrow> BinaryArray \<times> nat" where
  "save_records e wallet_key view_only n [] = ([], n)"
| "save_records e wallet_key view_only n (rec # recs) =
     (let record = encrypt_key_pair e (rand_chacha_iv e n) (spend_public_key rec)
            (if view_only then SecretKey0 else spend_secret_key rec) (creation_timestamp rec) wallet_key;
          (bytes, n') = save_records e wallet_key view_only (n + 1) recs
      in (bytes_of_EncryptedWalletRecord record @ bytes, n'))"

definition save :: "env \<Rightarrow> WalletContainerStorage \<Rightarrow> chacha_key \<Rightarrow> bool \<Rightarrow> BinaryArray \<times> nat" where
  "save e w wallet_key view_only =
     (let version = [of_nat SERIALIZATION_VERSION_V2];
          encrypted_view_keys = encrypt_key_pair e (rand_chacha_iv e (rng w)) (m_view_public_key w)
            (m_view_secret_key w) (m_oldest_timestamp w) wallet_key;
          prefix = replicate (sizeof_chacha_iv e) 0 @ bytes_of_EncryptedWalletRecord encrypted_view_keys;
          count_capacity_data = uint_le_to_bytes sizeof_uint64_t (length (m_wallet_records w));
          (bytes, n') = save_records e wallet_key view_only (rng w + 1) (m_wallet_records w)
      in (version @ prefix @ count_capacity_data @ count_capacity_data @ bytes, n'))"

text \<open>
  A newly constructed wallet, as the constructor of line 252 has it before \<^verbatim>\<open>load()\<close>:
  no record, an empty map, no file.
\<close>

definition new_WalletContainerStorage :: "env \<Rightarrow> string \<Rightarrow> chacha_key \<Rightarrow> nat \<Rightarrow> WalletContainerStorage" where
  "new_WalletContainerStorage e net wallet_key n =
     \<lparr>m_net = net, m_wallet_key = wallet_key, m_wallet_records = [], m_records_map = Map.empty,
      m_oldest_timestamp = initial_oldest_timestamp e,
      m_view_public_key = replicate sizeof_PublicKey 0,
      m_view_secret_key = SecretKey0,
      m_seed = replicate sizeof_Hash 0, m_tx_derivation_seed = replicate sizeof_Hash 0,
      m_history_filename_seed = replicate sizeof_Hash 0, m_history_key = replicate sizeof_Hash 0,
      rng = n, m_file = None\<rparr>"

text \<open>
  \<^verbatim>\<open>load_legacy_wallet_file\<close> (lines 236 to 250) with the two \<^verbatim>\<open>catch\<close> clauses of
  \<^verbatim>\<open>load\<close> around it (lines 323 to 331).
\<close>

fun index_records :: "WalletRecord list \<Rightarrow> nat \<Rightarrow> WalletContainerStorage \<Rightarrow> WalletContainerStorage" where
  "index_records [] i w = w"
| "index_records (r # rs) i w =
     index_records rs (i + 1)
       (w\<lparr>m_oldest_timestamp := min (m_oldest_timestamp w) (creation_timestamp r),
          m_records_map := map_insert (m_records_map w) (spend_public_key r) i\<rparr>)"

definition load_legacy_wallet_file ::
  "env \<Rightarrow> WalletContainerStorage \<Rightarrow> FileStream \<Rightarrow> error + WalletContainerStorage" where
  "load_legacy_wallet_file e w f =
     (case WalletSerializerV1_load e (m_wallet_key w) (content f) of
        Inl StreamError \<Rightarrow> Inl WALLET_FILE_READ_ERROR
      | Inl _ \<Rightarrow> Inl WALLET_FILE_DECRYPT_ERROR
      | Inr (vpk, vsk, records) \<Rightarrow>
          Inr (index_records records 0
                 (w\<lparr>m_view_public_key := vpk, m_view_secret_key := vsk, m_wallet_records := records\<rparr>)))"

text \<open>
  \<^verbatim>\<open>WalletContainerStorage::load\<close> (lines 311 to 354); \<open>f\<close> is the stream opened on
  \<open>m_path\<close>. \<^verbatim>\<open>load\<close> calls \<^verbatim>\<open>save_and_check\<close> on a legacy file and
  \<^verbatim>\<open>save_and_check\<close> constructs a second wallet, which calls \<^verbatim>\<open>load\<close>; \<open>load_with\<close>
  takes the \<^verbatim>\<open>save_and_check\<close> of the legacy branch as its first argument. What
  \<^verbatim>\<open>save_and_check\<close> throws there is caught and ignored.
\<close>

definition load_with ::
  "(WalletContainerStorage \<Rightarrow> WalletContainerStorage \<times> (error + unit)) \<Rightarrow>
   env \<Rightarrow> WalletContainerStorage \<Rightarrow> FileStream \<Rightarrow> error + WalletContainerStorage" where
  "load_with save_and_check_legacy e w f =
     (case f_read f 1 of
        Inl err \<Rightarrow> Inl err
      | Inr (version_data, f1) \<Rightarrow>
          (let version = uint_le_from_bytes version_data
           in if version > SERIALIZATION_VERSION_V2 then Inl WALLET_FILE_UNKNOWN_VERSION
              else
                (case (if version < SERIALIZATION_VERSION_V2
                       then (case load_legacy_wallet_file e w (f_seek f1 0) of
                               Inl err \<Rightarrow> Inl err
                             | Inr w1 \<Rightarrow> Inr (fst (save_and_check_legacy (w1\<lparr>m_file := None\<rparr>))))
                       else load_container_storage e w (f_seek f1 0)) of
                   Inl err \<Rightarrow> Inl err
                 | Inr w2 \<Rightarrow>
                     if m_wallet_records w2 = [] then Inl WALLET_FILE_DECRYPT_ERROR
                     else
                       (case is_view_only w2 of
                          Inl err \<Rightarrow> Inl err
                        | Inr view_only \<Rightarrow>
                            if \<not> view_only
                            then
                              (let seed_data = m_view_secret_key w2 @
                                     spend_secret_key (hd (m_wallet_records w2));
                                   seed = cn_fast_hash e seed_data
                               in Inr (w2\<lparr>m_seed := seed,
                                         m_tx_derivation_seed :=
                                           derive_from_seed_legacy e seed ''tx_derivation'',
                                         m_history_filename_seed :=
                                           derive_from_seed_legacy e seed ''history_filename'',
                                         m_history_key :=
                                           derive_from_seed_legacy e seed ''history''\<rparr>))
                            else Inr w2))))"

text \<open>
  \<^verbatim>\<open>WalletContainerStorage::save_and_check\<close> (lines 391 to 403) and the comparison of
  lines 430 to 433. The second wallet is constructed on the file \<^verbatim>\<open>save\<close> just wrote,
  whose version byte is \<open>SERIALIZATION_VERSION_V2\<close>: its \<^verbatim>\<open>load\<close> does not reach the
  legacy branch (lemma \<open>load_with_V2\<close>), and the argument given for it is never used.
\<close>

definition wallets_equal :: "WalletContainerStorage \<Rightarrow> WalletContainerStorage \<Rightarrow> bool" where
  "wallets_equal w other \<longleftrightarrow>
     m_view_public_key w = m_view_public_key other \<and>
     m_view_secret_key w = m_view_secret_key other \<and>
     m_oldest_timestamp w = m_oldest_timestamp other \<and>
     m_wallet_records w = m_wallet_records other"

definition save_and_check :: "env \<Rightarrow> WalletContainerStorage \<Rightarrow> WalletContainerStorage \<times> (error + unit)" where
  "save_and_check e w =
     (let (bytes, n') = save e w (m_wallet_key w) False;
          w1 = w\<lparr>rng := n'\<rparr>
      in case load_with (\<lambda>other. (other, Inr ())) e
                (new_WalletContainerStorage e (m_net w) (m_wallet_key w) n')
                \<lparr>content = bytes, pos = 0, read_only = False\<rparr> of
           Inl err \<Rightarrow> (w1, Inl err)
         | Inr other \<Rightarrow>
             if \<not> wallets_equal w1 other then (w1, Inl WALLET_FILE_WRITE_ERROR)
             else if \<not> atomic_replace_file e then (w1\<lparr>m_file := None\<rparr>, Inl WALLET_FILE_WRITE_ERROR)
             else (w1\<lparr>m_file := m_file other\<rparr>, Inr ()))"

definition load :: "env \<Rightarrow> WalletContainerStorage \<Rightarrow> FileStream \<Rightarrow> error + WalletContainerStorage" where
  "load e w f = load_with (save_and_check e) e w f"

subsection \<open>\<^verbatim>\<open>on_first_output_found\<close> (lines 515 to 527)\<close>

definition on_first_output_found ::
  "env \<Rightarrow> WalletContainerStorage \<Rightarrow> Timestamp \<Rightarrow> WalletContainerStorage \<times> (error + unit)" where
  "on_first_output_found e w ts =
     (if m_net w \<noteq> ''main'' then (w, Inr ())
      else if ts = 0 \<or> m_oldest_timestamp w \<noteq> 0 then (w, Inr ())
      else save_and_check e
             (w\<lparr>m_oldest_timestamp := ts,
                m_wallet_records :=
                  map (\<lambda>rec. if creation_timestamp rec = 0 then rec\<lparr>creation_timestamp := ts\<rparr> else rec)
                    (m_wallet_records w)\<rparr>))"

subsection \<open>\<^verbatim>\<open>generate_new_addresses\<close> (lines 435 to 495)\<close>

text \<open>
  The loop \<^verbatim>\<open>do { random_keypair(...) } while (m_records_map.count(...) != 0)\<close> draws until
  the public key is new; it need not end, and the result is \<open>None\<close> when it does not.
\<close>

partial_function (option) random_new_keypair ::
  "env \<Rightarrow> (PublicKey \<rightharpoonup> nat) \<Rightarrow> nat \<Rightarrow> (KeyPair \<times> nat) option" where
  "random_new_keypair e records_map n =
     (if records_map (public_key (random_keypair e n)) \<noteq> None
      then random_new_keypair e records_map (n + 1)
      else Some (random_keypair e n, n + 1))"

text \<open>
  Lines 448 to 460: the record of one input and the wallet after its random draws, or the
  exception for a secret key with no public key.
\<close>

definition new_record ::
  "env \<Rightarrow> Timestamp \<Rightarrow> Timestamp \<Rightarrow> SecretKey \<Rightarrow> WalletContainerStorage \<Rightarrow>
   error + WalletRecord \<times> WalletContainerStorage" where
  "new_record e ct now sk w =
     (if sk = SecretKey0
      then (case random_new_keypair e (m_records_map w) (rng w) of
              None \<Rightarrow> Inl no_return
            | Some (kp, n') \<Rightarrow>
                Inr (\<lparr>spend_public_key = public_key kp, spend_secret_key = secret_key kp,
                      creation_timestamp = now\<rparr>,
                     w\<lparr>rng := n', m_oldest_timestamp := min (m_oldest_timestamp w) now\<rparr>))
      else (case secret_key_to_public_key e sk of
              None \<Rightarrow> Inl Exception_101
            | Some pk \<Rightarrow>
                Inr (\<lparr>spend_public_key = pk, spend_secret_key = sk, creation_timestamp = ct\<rparr>, w)))"

text \<open>
  One iteration of the loop over \<open>sks\<close> (lines 447 to 478), on the wallet, the flag behind
  \<open>rescan_from_ct\<close> and \<open>result\<close>.
\<close>

definition generate_new_addresses_step ::
  "env \<Rightarrow> Timestamp \<Rightarrow> Timestamp \<Rightarrow> SecretKey \<Rightarrow> WalletContainerStorage \<Rightarrow> bool \<Rightarrow> WalletRecord list \<Rightarrow>
   WalletContainerStorage \<times> bool \<times> (error + WalletRecord list)" where
  "generate_new_addresses_step e ct now sk w rescan_from_ct result =
     (case new_record e ct now sk w of
        Inl err \<Rightarrow> (w, rescan_from_ct, Inl err)
      | Inr (record, w1) \<Rightarrow>
          (case m_records_map w1 (spend_public_key record) of
             Some idx \<Rightarrow>
               (case at (m_wallet_records w1) idx of
                  Inl err \<Rightarrow> (w1, rescan_from_ct, Inl err)
                | Inr stored \<Rightarrow>
                    if creation_timestamp stored > creation_timestamp record
                    then
                      (let lowered = stored\<lparr>creation_timestamp := creation_timestamp record\<rparr>
                       in (w1\<lparr>m_wallet_records := (m_wallet_records w1)[idx := lowered],
                              m_oldest_timestamp :=
                                min (m_oldest_timestamp w1) (creation_timestamp record)\<rparr>,
                           True, Inr (result @ [lowered])))
                    else (w1, rescan_from_ct, Inr (result @ [stored])))
           | None \<Rightarrow>
               (let w2 = w1\<lparr>m_records_map := map_insert (m_records_map w1) (spend_public_key record)
                                                (length (m_wallet_records w1)),
                            m_wallet_records := m_wallet_records w1 @ [record]\<rparr>;
                    enc_record = encrypt_key_pair e (rand_chacha_iv e (rng w2))
                      (spend_public_key record) (spend_secret_key record)
                      (creation_timestamp record) (m_wallet_key w2);
                    w3 = w2\<lparr>rng := rng w2 + 1\<rparr>
                in case m_file w3 of
                     None \<Rightarrow> (w3, rescan_from_ct, Inl invariant_violated)
                   | Some f \<Rightarrow>
                       (case f_write f (bytes_of_EncryptedWalletRecord enc_record) of
                          Inl err \<Rightarrow> (w3, rescan_from_ct, Inl err)
                        | Inr f1 \<Rightarrow> (w3\<lparr>m_file := Some f1\<rparr>, rescan_from_ct, Inr (result @ [record]))))))"

fun generate_new_addresses_loop ::
  "env \<Rightarrow> Timestamp \<Rightarrow> Timestamp \<Rightarrow> SecretKey list \<Rightarrow> WalletContainerStorage \<Rightarrow> bool \<Rightarrow> WalletRecord list \<Rightarrow>
   WalletContainerStorage \<times> bool \<times> (error + WalletRecord list)" where
  "generate_new_addresses_loop e ct now [] w rescan_from_ct result = (w, rescan_from_ct, Inr result)"
| "generate_new_addresses_loop e ct now (sk # sks) w rescan_from_ct result =
     (case generate_new_addresses_step e ct now sk w rescan_from_ct result of
        (w1, rescan1, Inl err) \<Rightarrow> (w1, rescan1, Inl err)
      | (w1, rescan1, Inr result1) \<Rightarrow> generate_new_addresses_loop e ct now sks w1 rescan1 result1)"

text \<open>
  Lines 479 to 488: the two counts are rewritten in place. A null \<^verbatim>\<open>m_file\<close> cannot occur
  at this point (there is no C++ behaviour to model for it); the model gives it an error.
\<close>

definition write_counts :: "env \<Rightarrow> WalletContainerStorage \<Rightarrow> WalletContainerStorage \<times> (error + unit)" where
  "write_counts e w =
     (case m_file w of
        None \<Rightarrow> (w, Inl invariant_violated)
      | Some f \<Rightarrow>
          (let f1 = f_seek f (1 + sizeof_ContainerStoragePrefix e);
               count_capacity_data = uint_le_to_bytes sizeof_uint64_t (length (m_wallet_records w))
           in case f_write f1 count_capacity_data of
                Inl err \<Rightarrow> (w\<lparr>m_file := Some f1\<rparr>, Inl err)
              | Inr f2 \<Rightarrow>
                  (case f_write f2 count_capacity_data of
                     Inl err \<Rightarrow> (w\<lparr>m_file := Some f2\<rparr>, Inl err)
                   | Inr f3 \<Rightarrow> (w\<lparr>m_file := Some f3\<rparr>, Inr ()))))"

definition generate_new_addresses ::
  "env \<Rightarrow> WalletContainerStorage \<Rightarrow> SecretKey list \<Rightarrow> Timestamp \<Rightarrow> Timestamp \<Rightarrow> bool \<Rightarrow>
   WalletContainerStorage \<times> bool \<times> (error + WalletRecord list)" where
  "generate_new_addresses e w sks ct now rescan_from_ct =
     (case is_view_only w of
        Inl err \<Rightarrow> (w, rescan_from_ct, Inl err)
      | Inr True \<Rightarrow> (w, rescan_from_ct, Inl Exception_101)
      | Inr False \<Rightarrow>
          (case (if m_file w = None then save_and_check e w else (w, Inr ())) of
             (w0, Inl err) \<Rightarrow> (w0, rescan_from_ct, Inl err)
           | (w0, Inr _) \<Rightarrow>
               (case m_file w0 of
                  None \<Rightarrow> (w0, False, Inl invariant_violated)
                | Some f \<Rightarrow>
                    (let append_pos = wallet_file_size e (length (m_wallet_records w0));
                         w1 = w0\<lparr>m_file := Some (f_seek f append_pos)\<rparr>
                     in case generate_new_addresses_loop e ct now sks w1 False [] of
                          (w2, rescan, Inl err) \<Rightarrow> (w2, rescan, Inl err)
                        | (w2, rescan, Inr result) \<Rightarrow>
                            (case write_counts e w2 of
                               (w3, Inl err) \<Rightarrow> (w3, rescan, Inl err)
                             | (w3, Inr _) \<Rightarrow>
                                 if rescan
                                 then (case save_and_check e w3 of
                                         (w4, Inl err) \<Rightarrow> (w4, rescan, Inl err)
                                       | (w4, Inr _) \<Rightarrow> (w4, rescan, Inr result))
                                 else (w3, rescan, Inr result))))))"

subsection \<open>\<^verbatim>\<open>get_record\<close> and \<^verbatim>\<open>is_our_address\<close> (lines 501 to 513 and 159 to 162)\<close>

text \<open>
  \<^verbatim>\<open>AccountAddress\<close> is a variant of \<^verbatim>\<open>AccountAddressSimple\<close> (spend public key, view
  public key) and \<^verbatim>\<open>AccountAddressUnlinkable\<close> (\<open>s\<close>, \<open>s_v\<close>, \<open>is_auditable\<close>).
  \<open>record\<close> is the value behind the pointer \<^verbatim>\<open>record\<close> before the call; the result is
  the returned flag with the value behind the pointer after it.
\<close>

datatype AccountAddress =
    AccountAddressSimple PublicKey PublicKey
  | AccountAddressUnlinkable PublicKey PublicKey bool

definition get_record ::
  "WalletContainerStorage \<Rightarrow> WalletRecord \<Rightarrow> AccountAddress \<Rightarrow> error + bool \<times> WalletRecord" where
  "get_record w record v_addr =
     (case v_addr of
        AccountAddressUnlinkable s s_v is_auditable \<Rightarrow> Inr (False, record)
      | AccountAddressSimple addr_spend_public_key addr_view_public_key \<Rightarrow>
          (let rit = m_records_map w addr_spend_public_key
           in if m_view_public_key w \<noteq> addr_view_public_key \<or> rit = None then Inr (False, record)
              else
                (case rit of
                   None \<Rightarrow> Inr (False, record)
                 | Some idx \<Rightarrow>
                     if idx \<ge> get_actual_records_count w then Inr (False, record)
                     else
                       (case at (m_wallet_records w) idx of
                          Inl err \<Rightarrow> Inl err
                        | Inr r \<Rightarrow>
                            if \<not> (spend_public_key r = addr_spend_public_key)
                            then Inl invariant_violated
                            else Inr (True, r)))))"

definition is_our_address :: "WalletContainerStorage \<Rightarrow> AccountAddress \<Rightarrow> error + bool" where
  "is_our_address w v_addr =
     (case get_record w \<lparr>spend_public_key = replicate sizeof_PublicKey 0,
                          spend_secret_key = SecretKey0, creation_timestamp = 0\<rparr> v_addr of
        Inl err \<Rightarrow> Inl err
      | Inr (found, wr) \<Rightarrow> Inr found)"

section \<open>\<^verbatim>\<open>WalletHD::generate_mnemonic\<close> (lines 682 to 753)\<close>

text \<open>
  The word list and the CRC32 steps are in \<^verbatim>\<open>common/Words.hpp\<close> and
  \<^verbatim>\<open>common/CRC32.hpp\<close>, outside \<^verbatim>\<open>Wallet.cpp\<close>; the model takes them as the fields of a
  record:
  \<^item> \<open>BITS_PER_WORD\<close>, \<open>WORDS_COUNT\<close>, \<open>WORDS_MIN_LEN\<close>, \<open>WORDS_MAX_LEN\<close>: the constants;
  \<^item> \<open>word_chars i\<close>: the characters from \<^verbatim>\<open>word_ptrs[i]\<close> up to \<^verbatim>\<open>word_ptrs[i + 1]\<close>, the
    word of index \<open>i\<close>;
  \<^item> \<open>word_crc32_adj i\<close>: the entry \<open>i\<close> of the array of that name;
  \<^item> \<open>words_bylen l\<close>: the pointer \<^verbatim>\<open>words_bylen[l]\<close> as an index into
    \<^verbatim>\<open>word_crc32_adj\<close>;
  \<^item> \<open>crc32_step_zero\<close>, \<open>crc32_reverse_step_zero\<close>: the two functions of these names;
  \<^item> \<open>rand_size_t n\<close>: what the \<open>n\<close>-th draw gives as \<^verbatim>\<open>crypto::rand<size_t>()\<close>.
\<close>

record word_tables =
  BITS_PER_WORD :: nat
  WORDS_COUNT :: nat
  WORDS_MIN_LEN :: nat
  WORDS_MAX_LEN :: nat
  word_chars :: "nat \<Rightarrow> string"
  word_crc32_adj :: "nat \<Rightarrow> 32 word"
  words_bylen :: "nat \<Rightarrow> nat"
  crc32_step_zero :: "32 word \<Rightarrow> 32 word"
  crc32_reverse_step_zero :: "32 word \<Rightarrow> 32 word"
  rand_size_t :: "nat \<Rightarrow> nat"

text \<open>
  Lines 708 to 711, the forward CRC32 of one more word: one \<^verbatim>\<open>crc32_step_zero\<close> for each
  of its characters, then the XOR with its \<^verbatim>\<open>word_crc32_adj\<close>.
\<close>

definition crc32_word :: "word_tables \<Rightarrow> 32 word \<Rightarrow> nat \<Rightarrow> 32 word" where
  "crc32_word t crc32_prefix j =
     (crc32_step_zero t ^^ length (word_chars t j)) crc32_prefix XOR word_crc32_adj t j"


text \<open>
  Lines 704 to 712: the random prefix. The result is the word indices, the CRC32 after
  them, and the count of random draws.
\<close>

fun sample_prefix :: "word_tables \<Rightarrow> nat \<Rightarrow> nat \<Rightarrow> 32 word \<Rightarrow> nat list \<times> 32 word \<times> nat" where
  "sample_prefix t 0 n crc32_prefix = ([], crc32_prefix, n)"
| "sample_prefix t (Suc k) n crc32_prefix =
     (let j = rand_size_t t n mod WORDS_COUNT t;
          (word_ids, crc, n') = sample_prefix t k (n + 1) (crc32_word t crc32_prefix j)
      in (j # word_ids, crc, n'))"







section \<open>Notions the theorems are stated with\<close>

text \<open>The record an encrypted record decrypts to, as the loop of the loader builds it.\<close>

definition decrypt_record :: "env \<Rightarrow> chacha_key \<Rightarrow> EncryptedWalletRecord \<Rightarrow> WalletRecord" where
  "decrypt_record e key r =
     (case decrypt_key_pair e r key of
        (pk, sk, ct) \<Rightarrow> \<lparr>spend_public_key = pk, spend_secret_key = sk, creation_timestamp = ct\<rparr>)"

text \<open>
  The two counts of a container file, read from its bytes: \<open>item_capacity\<close> follows the
  version byte and the prefix, \<open>item_count\<close> follows \<open>item_capacity\<close>.
\<close>

definition file_item_capacity :: "env \<Rightarrow> BinaryArray \<Rightarrow> nat" where
  "file_item_capacity e bytes =
     uint_le_from_bytes (take sizeof_uint64_t (drop (1 + sizeof_ContainerStoragePrefix e) bytes))"

definition file_item_count :: "env \<Rightarrow> BinaryArray \<Rightarrow> nat" where
  "file_item_count e bytes =
     uint_le_from_bytes
       (take sizeof_uint64_t (drop (1 + sizeof_ContainerStoragePrefix e + sizeof_uint64_t) bytes))"

definition is_tracking :: "WalletRecord \<Rightarrow> bool" where
  "is_tracking r \<longleftrightarrow> spend_secret_key r = SecretKey0"

text \<open>The smallest creation timestamp of a list of records; the largest timestamp when there is none.\<close>

definition min_creation_timestamp :: "WalletRecord list \<Rightarrow> Timestamp" where
  "min_creation_timestamp rs = fold (\<lambda>r m. min m (creation_timestamp r)) rs Timestamp_max"

text \<open>
  An address that is not of the simple variant, or whose view public key is not the
  wallet's.
\<close>

definition not_simple_with_our_view_key :: "WalletContainerStorage \<Rightarrow> AccountAddress \<Rightarrow> bool" where
  "not_simple_with_our_view_key w v_addr =
     (case v_addr of
        AccountAddressUnlinkable s s_v is_auditable \<Rightarrow> True
      | AccountAddressSimple addr_spend_public_key addr_view_public_key \<Rightarrow>
          addr_view_public_key \<noteq> m_view_public_key w)"


text \<open>
  What any number of iterations of the loop of \<^verbatim>\<open>generate_new_addresses\<close> keeps between
  the wallet and flag before them and the wallet and flag after them, for the timestamp
  \<open>ct\<close> of the call: no record is dropped; a record that was there keeps its keys, and its
  timestamp either stays or goes down to \<open>ct\<close>; the flag is never reset; while the flag is
  not set the records that were there are as they were; and the records map keeps its
  entries.
\<close>

definition lowered_to ::
  "Timestamp \<Rightarrow> WalletContainerStorage \<Rightarrow> bool \<Rightarrow> WalletContainerStorage \<Rightarrow> bool \<Rightarrow> bool" where
  "lowered_to ct w r w' r' \<longleftrightarrow>
     length (m_wallet_records w) \<le> length (m_wallet_records w') \<and>
     (\<forall>idx < length (m_wallet_records w).
        \<exists>c'. m_wallet_records w' ! idx = (m_wallet_records w ! idx)\<lparr>creation_timestamp := c'\<rparr> \<and>
             (c' = creation_timestamp (m_wallet_records w ! idx) \<or>
              c' = ct \<and> ct < creation_timestamp (m_wallet_records w ! idx))) \<and>
     (r \<longrightarrow> r') \<and>
     (\<not> r' \<longrightarrow> (\<forall>idx < length (m_wallet_records w).
                m_wallet_records w' ! idx = m_wallet_records w ! idx)) \<and>
     (\<forall>pk i. m_records_map w pk = Some i \<longrightarrow> m_records_map w' pk = Some i)"



section \<open>Concrete primitives for the closed instances\<close>

text \<open>
  Stand-ins for the external primitives, used only where a theorem is instantiated at a
  concrete input: a hash that pads or cuts to 32 bytes, a cipher that XORs every byte
  with the first key byte, a public key that is the secret key with every byte increased
  by one, and counters for the random draws.
\<close>

definition toy_hash :: "BinaryArray \<Rightarrow> Hash" where
  "toy_hash xs = take 32 (xs @ replicate 32 0)"

definition toy_chacha :: "chacha_key \<Rightarrow> BinaryArray \<Rightarrow> BinaryArray" where
  "toy_chacha key bytes = map (\<lambda>b. b XOR (case key of [] \<Rightarrow> 90 | k # _ \<Rightarrow> k)) bytes"

definition toy_public :: "SecretKey \<Rightarrow> PublicKey" where
  "toy_public sk = map (\<lambda>b. b + 1) sk"

definition toy_keypair :: "nat \<Rightarrow> KeyPair" where
  "toy_keypair n = \<lparr>public_key = replicate 32 (of_nat n + 2), secret_key = replicate 32 (of_nat n + 1)\<rparr>"

definition toy_env :: env where
  "toy_env =
     \<lparr>cn_fast_hash = toy_hash,
      chacha20 = toy_chacha,
      chacha8 = (\<lambda>bytes key iv0. toy_chacha key bytes),
      rand_Hash = (\<lambda>n. replicate 32 (of_nat n)),
      rand_chacha_iv = (\<lambda>n. replicate 8 (of_nat n)),
      random_keypair = toy_keypair,
      secret_key_to_public_key = (\<lambda>sk. Some (toy_public sk)),
      keys_match = (\<lambda>sk pk. pk = toy_public sk),
      key_isvalid = (\<lambda>pk. True),
      hd_spendkey = (\<lambda>base view_seed i. toy_keypair i),
      hardware_concurrency = 4,
      to_binary = uint_le_to_bytes 8,
      to_binary_ts = (\<lambda>ts. uint_le_to_bytes 4 (unat ts)),
      sizeof_chacha_iv = 8,
      WalletSerializerV1_load = (\<lambda>key file. Inl StreamError),
      atomic_replace_file = True,
      initial_oldest_timestamp = Timestamp_max\<rparr>"

definition empty_tables :: tables where
  "empty_tables =
     \<lparr>unencrypted_salt = replicate 32 0, parameters = Map.empty, labels = Map.empty,
      payment_queue = Map.empty\<rparr>"

text \<open>
  An HD wallet on net \<open>main\<close> with no record materialized yet and one payment queue row
  written in the open transaction and not committed.
\<close>

definition hd_wallet0 :: WalletHD where
  "hd_wallet0 =
     \<lparr>m_net = ''main'', m_wallet_key = replicate 32 1, m_wallet_records = [],
      m_records_map = Map.empty, m_oldest_timestamp = 0,
      m_view_public_key = replicate 32 3, m_view_secret_key = replicate 32 2,
      m_seed = replicate 32 0, m_tx_derivation_seed = replicate 32 0,
      m_history_filename_seed = replicate 32 0, m_history_key = replicate 32 0, rng = 0,
      m_db_dbi = \<lparr>committed = empty_tables,
                  txn = empty_tables\<lparr>payment_queue :=
                    [(replicate 32 5, replicate 32 6) \<mapsto> ([], [], [])]\<rparr>,
                  commit_count = 0\<rparr>,
      m_used_address_count = 0,
      m_spend_key_base = toy_keypair 0, m_address_type = 0, m_labels = Map.empty\<rparr>"

text \<open>
  Container files for the stand-in primitives. Under the all-zero wallet key the stand-in
  cipher leaves the bytes as they are, so an encrypted record is its iv followed by the
  public key, the secret key and the eight bytes of the timestamp.
\<close>

definition toy_key :: chacha_key where
  "toy_key = 0 # replicate 31 0"

definition toy_record_bytes :: "WalletRecord \<Rightarrow> BinaryArray" where
  "toy_record_bytes r =
     replicate 8 0 @ spend_public_key r @ spend_secret_key r @
     uint_le_to_bytes 8 (unat (creation_timestamp r))"

definition toy_file :: "nat \<Rightarrow> nat \<Rightarrow> WalletRecord list \<Rightarrow> BinaryArray" where
  "toy_file capacity count records =
     [6] @ replicate 8 0 @
     toy_record_bytes \<lparr>spend_public_key = replicate 32 2, spend_secret_key = replicate 32 1,
                        creation_timestamp = 0\<rparr> @
     uint_le_to_bytes 8 capacity @ uint_le_to_bytes 8 count @
     concat (map toy_record_bytes records)"

definition rec_a :: WalletRecord where
  "rec_a = \<lparr>spend_public_key = replicate 32 4, spend_secret_key = replicate 32 3,
            creation_timestamp = 7\<rparr>"

definition rec_b :: WalletRecord where
  "rec_b = \<lparr>spend_public_key = replicate 32 6, spend_secret_key = replicate 32 5,
            creation_timestamp = 5\<rparr>"

definition rec_t :: WalletRecord where
  "rec_t = \<lparr>spend_public_key = replicate 32 9, spend_secret_key = replicate 32 0,
            creation_timestamp = 3\<rparr>"

definition toy_stream :: "BinaryArray \<Rightarrow> FileStream" where
  "toy_stream bytes = \<lparr>content = bytes, pos = 0, read_only = False\<rparr>"

definition new_toy_wallet :: WalletContainerStorage where
  "new_toy_wallet = new_WalletContainerStorage toy_env ''main'' toy_key 0"

text \<open>
  A container wallet holding \<open>rec_a\<close> and \<open>rec_b\<close> on its file, and one whose only record
  and oldest timestamp have the timestamp 0.
\<close>

definition toy_wallet_ab :: WalletContainerStorage where
  "toy_wallet_ab =
     new_toy_wallet
       \<lparr>m_wallet_records := [rec_a, rec_b],
        m_records_map := [replicate 32 4 \<mapsto> 0, replicate 32 6 \<mapsto> 1],
        m_oldest_timestamp := 5,
        m_view_public_key := replicate 32 2, m_view_secret_key := replicate 32 1,
        m_file := Some \<lparr>content = toy_file 2 2 [rec_a, rec_b], pos = 265, read_only = False\<rparr>\<rparr>"

definition rec_z :: WalletRecord where
  "rec_z = \<lparr>spend_public_key = replicate 32 8, spend_secret_key = replicate 32 7,
            creation_timestamp = 0\<rparr>"

definition toy_wallet_z :: WalletContainerStorage where
  "toy_wallet_z =
     new_toy_wallet
       \<lparr>m_wallet_records := [rec_z],
        m_records_map := [replicate 32 8 \<mapsto> 0],
        m_oldest_timestamp := 0,
        m_view_public_key := replicate 32 2, m_view_secret_key := replicate 32 1,
        m_file := Some \<lparr>content = toy_file 1 1 [rec_z], pos = 185, read_only = False\<rparr>\<rparr>"


text \<open>
  For the payment queue: a stand-in hash that keeps the 32 bytes after the first 32 (under
  \<^verbatim>\<open>derive_from_key\<close> with a key of 32 bytes these are the label and the bytes after it),
  two transaction ids, of which only the first starts with the character \<open>x\<close> (120), and
  an HD wallet whose open transaction holds one row for each of them on net \<open>main\<close>,
  none of them committed.
\<close>

definition toy_hash_tail :: "BinaryArray \<Rightarrow> Hash" where
  "toy_hash_tail xs = take 32 (drop 32 xs @ replicate 32 0)"

definition toy_env_tail :: env where
  "toy_env_tail = toy_env\<lparr>cn_fast_hash := toy_hash_tail\<rparr>"

definition tid_x :: Hash where
  "tid_x = 120 # replicate 31 0"

definition tid_y :: Hash where
  "tid_y = 121 # replicate 31 0"

definition hd_wallet_q :: WalletHD where
  "hd_wallet_q =
     hd_wallet0
       \<lparr>m_db_dbi :=
          \<lparr>committed = empty_tables,
           txn = empty_tables\<lparr>payment_queue :=
             [(derive_from_key toy_env_tail (replicate 32 1)
                 (as_binary_array ''db_payment_queue_tid'' @ tid_x),
               derive_from_key toy_env_tail (replicate 32 1)
                 (as_binary_array ''db_payment_queue_netmain'')) \<mapsto> ([1], [], []),
              (derive_from_key toy_env_tail (replicate 32 1)
                 (as_binary_array ''db_payment_queue_tid'' @ tid_y),
               derive_from_key toy_env_tail (replicate 32 1)
                 (as_binary_array ''db_payment_queue_netmain'')) \<mapsto> ([2], [], [])]\<rparr>,
           commit_count = 0\<rparr>\<rparr>"
text \<open>
  Word tables for the closed instances: the three words \<open>cat\<close>, \<open>dog\<close> and \<open>bird\<close> in two
  buckets (lengths 3 and 4), a forward step that adds one and a reverse step that
  subtracts one, and a random source that counts its draws.
\<close>

definition toy_tables :: word_tables where
  "toy_tables =
     \<lparr>BITS_PER_WORD = 11, WORDS_COUNT = 3, WORDS_MIN_LEN = 3, WORDS_MAX_LEN = 4,
      word_chars = (\<lambda>i. if i = 0 then ''cat'' else if i = 1 then ''dog'' else ''bird''),
      word_crc32_adj = (\<lambda>i. if i = 0 then 1 else if i = 1 then 2 else 4),
      words_bylen = (\<lambda>l. if l = 0 then 2 else 3),
      crc32_step_zero = (\<lambda>x. x + 1),
      crc32_reverse_step_zero = (\<lambda>x. x - 1),
      rand_size_t = (\<lambda>n. n)\<rparr>"

section \<open>Little-endian bytes and the size loop of \<^verbatim>\<open>encrypt_data\<close>\<close>

lemma length_uint_le_to_bytes: "length (uint_le_to_bytes si val) = si"
  by (induction si arbitrary: val) auto

lemma uint_le_roundtrip:
  "val < 256 ^ si \<Longrightarrow> uint_le_from_bytes (uint_le_to_bytes si val) = val"
proof (induction si arbitrary: val)
  case 0
  then show ?case by simp
next
  case (Suc si)
  have "val div 256 < 256 ^ si"
    using Suc.prems by (simp add: less_mult_imp_div_less mult.commute)
  then have "uint_le_from_bytes (uint_le_to_bytes si (val div 256)) = val div 256"
    by (rule Suc.IH)
  moreover have "unat (of_nat (val mod 256) :: byte) = val mod 256"
    by (simp add: unat_of_nat)
  ultimately show ?case by simp
qed

text \<open>
  Started at a power of two below \<open>2 ^ 64\<close> with a request of at most \<open>2 ^ 63\<close> bytes, the
  loop ends at a power of two that covers the request and \<open>MIN_SIZE\<close>.
\<close>

lemma grow_actual_size_pow2:
  "need \<le> 2 ^ 63 \<Longrightarrow> j \<le> 63 \<Longrightarrow>
   \<exists>k. j \<le> k \<and> k \<le> 63 \<and> grow_actual_size need (2 ^ j) = Some (2 ^ k) \<and>
       need \<le> 2 ^ k \<and> MIN_SIZE \<le> 2 ^ k"
proof (induction "63 - j" arbitrary: j)
  case 0
  then have j: "j = 63" by simp
  have "grow_actual_size need (2 ^ 63) = Some (2 ^ 63)"
    using 0 by (subst grow_actual_size.simps) (simp add: MIN_SIZE_def)
  then show ?case using 0 j by (auto simp: MIN_SIZE_def intro!: exI[of _ 63])
next
  case (Suc d)
  then have jl: "j < 63" by simp
  show ?case
  proof (cases "(2::nat) ^ j < need \<or> (2::nat) ^ j < MIN_SIZE")
    case True
    have m: "((2::nat) ^ j * 2) mod size_t_max1 = 2 ^ Suc j"
    proof -
      have "(2::nat) ^ Suc j < 2 ^ 64" using jl by (intro power_strict_increasing) auto
      then show ?thesis by (simp add: size_t_max1_def mult.commute)
    qed
    have "d = 63 - Suc j" using Suc by simp
    from Suc.hyps(1)[OF this Suc.prems(1)] jl
    obtain k where k: "Suc j \<le> k" "k \<le> 63" "grow_actual_size need (2 ^ Suc j) = Some (2 ^ k)"
      "need \<le> 2 ^ k" "MIN_SIZE \<le> 2 ^ k" by auto
    have "grow_actual_size need (2 ^ j) = grow_actual_size need (2 ^ Suc j)"
      using True m by (subst grow_actual_size.simps) simp
    then show ?thesis using k by (intro exI[of _ k]) auto
  next
    case False
    then have "grow_actual_size need (2 ^ j) = Some (2 ^ j)"
      by (subst grow_actual_size.simps) simp
    then show ?thesis using False Suc.prems by (intro exI[of _ j]) auto
  qed
qed

lemma encrypt_data_Some:
  assumes len: "length plain \<le> 2 ^ 31"
  obtains k where "8 \<le> k" "k \<le> 63" "length plain + 36 \<le> 2 ^ k"
    "encrypt_data e wallet_key iv0 plain =
       Some (iv0 @ chacha20 e (cn_fast_hash e (wallet_key @ iv0))
         (uint_le_to_bytes 4 (length plain) @ plain @ replicate (2 ^ k - 36 - length plain) 0))"
proof -
  have n: "length plain + 36 < 2 ^ 63" using len by simp
  then have nm: "(length plain + EXTRA_SIZE) mod size_t_max1 = length plain + 36"
    by (simp add: EXTRA_SIZE_def sizeof_Hash_def size_t_max1_def)
  from grow_actual_size_pow2[of "length plain + 36" 0] n
  obtain k where k: "k \<le> 63" "grow_actual_size (length plain + 36) 1 = Some (2 ^ k)"
    "length plain + 36 \<le> 2 ^ k" "MIN_SIZE \<le> 2 ^ k" by auto
  have k8: "8 \<le> k"
  proof (rule ccontr)
    assume "\<not> 8 \<le> k"
    then have "k \<le> 7" by simp
    then have "(2::nat) ^ k \<le> 2 ^ 7" by (intro power_increasing) auto
    with k(4) show False by (simp add: MIN_SIZE_def)
  qed
  have "encrypt_data e wallet_key iv0 plain =
       Some (iv0 @ chacha20 e (cn_fast_hash e (wallet_key @ iv0))
         (uint_le_to_bytes 4 (length plain) @ plain @ replicate (2 ^ k - 36 - length plain) 0))"
    using k(2) by (simp add: encrypt_data_def nm sizeof_Hash_def Let_def)
  then show ?thesis using that k8 k by blast
qed



lemma is_power_of_two_power: "is_power_of_two (2 ^ k)"
proof (induction k)
  case 0
  show ?case by (subst is_power_of_two.simps) simp
next
  case (Suc k)
  then show ?case by (subst is_power_of_two.simps) simp
qed

text \<open>The executable test is the property it is named after.\<close>

lemma is_power_of_two_iff: "is_power_of_two n \<longleftrightarrow> (\<exists>k. n = 2 ^ k)"
proof
  show "is_power_of_two n \<Longrightarrow> \<exists>k. n = 2 ^ k"
  proof (induction n rule: is_power_of_two.induct)
    case (1 n)
    show ?case
    proof (cases "n = 1")
      case True
      then show ?thesis by (intro exI[of _ 0]) simp
    next
      case False
      from "1.prems" have "if n = 0 then False else if n = 1 then True
          else if n mod 2 = 0 then is_power_of_two (n div 2) else False"
        by (subst (asm) is_power_of_two.simps)
      with False have n: "n \<noteq> 0" "n mod 2 = 0" "is_power_of_two (n div 2)"
        by (auto split: if_splits)
      with "1.IH" False obtain k where "n div 2 = 2 ^ k" by auto
      with n have "n = 2 ^ Suc k" by auto
      then show ?thesis by blast
    qed
  qed
next
  show "\<exists>k. n = 2 ^ k \<Longrightarrow> is_power_of_two n"
    using is_power_of_two_power by auto
qed

lemma toy_chacha_length: "length (toy_chacha key bytes) = length bytes"
  by (simp add: toy_chacha_def)

lemma toy_chacha_inv: "toy_chacha key (toy_chacha key bytes) = bytes"
  by (induction bytes) (simp_all add: toy_chacha_def xor.assoc)

section \<open>The HD wallet: \<^verbatim>\<open>put\<close> and \<^verbatim>\<open>generate_ahead\<close>\<close>



lemma foldl_push_record_frame:
  "m_used_address_count (foldl push_record w rs) = m_used_address_count w \<and>
   m_db_dbi (foldl push_record w rs) = m_db_dbi w \<and>
   rng (foldl push_record w rs) = rng w \<and>
   m_wallet_key (foldl push_record w rs) = m_wallet_key w \<and>
   m_oldest_timestamp (foldl push_record w rs) = m_oldest_timestamp w"
  by (induction rs arbitrary: w) (simp_all add: push_record_def)





lemma generate_ahead_frame:
  "m_used_address_count (generate_ahead e w) = m_used_address_count w \<and>
   m_db_dbi (generate_ahead e w) = m_db_dbi w \<and>
   rng (generate_ahead e w) = rng w \<and>
   m_wallet_key (generate_ahead e w) = m_wallet_key w \<and>
   m_oldest_timestamp (generate_ahead e w) = m_oldest_timestamp w"
  by (simp add: generate_ahead_def Let_def foldl_push_record_frame)





section \<open>The payment queue of the concrete HD wallet\<close>

lemma toy_queue_keys:
  "derive_from_key toy_env_tail (replicate 32 1) (as_binary_array ''db_payment_queue_tid'' @ tid_x)
     = as_binary_array ''db_payment_queue_tid'' @ 120 # replicate 11 0"
  "derive_from_key toy_env_tail (replicate 32 1) (as_binary_array ''db_payment_queue_tid'' @ tid_y)
     = as_binary_array ''db_payment_queue_tid'' @ 121 # replicate 11 0"
  by (simp_all add: derive_from_key_def toy_env_tail_def toy_hash_tail_def tid_x_def tid_y_def
      as_binary_array_def)

lemma toy_queue_net:
  "m_net hd_wallet_q = ''main''"
  "m_wallet_key hd_wallet_q = replicate 32 1"
  by (simp_all add: hd_wallet_q_def hd_wallet0_def)

lemma hd_wallet_q_dbi:
  "committed (m_db_dbi hd_wallet_q) = empty_tables"
  "commit_count (m_db_dbi hd_wallet_q) = 0"
  "payment_queue (txn (m_db_dbi hd_wallet_q)) =
     [(derive_from_key toy_env_tail (replicate 32 1)
         (as_binary_array ''db_payment_queue_tid'' @ tid_x),
       derive_from_key toy_env_tail (replicate 32 1)
         (as_binary_array ''db_payment_queue_netmain'')) \<mapsto> ([1], [], []),
      (derive_from_key toy_env_tail (replicate 32 1)
         (as_binary_array ''db_payment_queue_tid'' @ tid_y),
       derive_from_key toy_env_tail (replicate 32 1)
         (as_binary_array ''db_payment_queue_netmain'')) \<mapsto> ([2], [], [])]"
  by (simp_all add: hd_wallet_q_def)
section \<open>The container loader\<close>

lemma length_split_records: "length (split_records sz n bs) = n"
  by (induction n arbitrary: bs) auto

lemma decrypt_record_split:
  "decrypt_key_pair e r key = (pk, sk, ct) \<Longrightarrow>
   decrypt_record e key r = \<lparr>spend_public_key = pk, spend_secret_key = sk, creation_timestamp = ct\<rparr>"
  by (simp add: decrypt_record_def)

lemma load_records_Cons:
  "load_records e n i tm (r # rs) w =
     (let rec = decrypt_record e (m_wallet_key w) r
      in if i \<noteq> 0 \<and> is_tracking rec \<noteq> tm then Inl WALLET_FILE_DECRYPT_ERROR
         else if (i < CHECK_KEYS_COUNT \<or> i \<ge> (n + size_t_max1 - CHECK_KEYS_COUNT) mod size_t_max1) \<and>
                 (if spend_secret_key rec \<noteq> SecretKey0
                  then \<not> keys_match e (spend_secret_key rec) (spend_public_key rec)
                  else \<not> key_isvalid e (spend_public_key rec))
         then Inl WALLET_FILE_DECRYPT_ERROR
         else load_records e n (i + 1) (if i = 0 then is_tracking rec else tm) rs
                (w\<lparr>m_oldest_timestamp := min (m_oldest_timestamp w) (creation_timestamp rec),
                   m_records_map := map_insert (m_records_map w) (spend_public_key rec)
                                      (length (m_wallet_records w)),
                   m_wallet_records := m_wallet_records w @ [rec]\<rparr>))"
proof -
  obtain pk sk ct where d: "decrypt_key_pair e r (m_wallet_key w) = (pk, sk, ct)"
    by (cases "decrypt_key_pair e r (m_wallet_key w)") auto
  show ?thesis
    by (auto simp: d decrypt_record_split[OF d] is_tracking_def Let_def)
qed

declare load_records.simps(2) [simp del]

lemma load_records_Inr:
  "load_records e n i tm encs w = Inr w' \<Longrightarrow>
     m_wallet_records w' = m_wallet_records w @ map (decrypt_record e (m_wallet_key w)) encs \<and>
     m_oldest_timestamp w' =
       fold (\<lambda>r m. min m (creation_timestamp r)) (map (decrypt_record e (m_wallet_key w)) encs)
         (m_oldest_timestamp w) \<and>
     m_wallet_key w' = m_wallet_key w \<and> m_file w' = m_file w"
proof (induction encs arbitrary: i tm w)
  case Nil
  then show ?case by simp
next
  case (Cons r rs)
  define rec where "rec = decrypt_record e (m_wallet_key w) r"
  define w1 where "w1 = w\<lparr>m_oldest_timestamp := min (m_oldest_timestamp w) (creation_timestamp rec),
                   m_records_map := map_insert (m_records_map w) (spend_public_key rec)
                                      (length (m_wallet_records w)),
                   m_wallet_records := m_wallet_records w @ [rec]\<rparr>"
  from Cons.prems have "load_records e n (i + 1) (if i = 0 then is_tracking rec else tm) rs w1 = Inr w'"
    by (simp add: load_records_Cons Let_def rec_def w1_def split: if_splits)
  from Cons.IH[OF this] show ?case by (simp add: w1_def rec_def)
qed

lemma load_records_Inl:
  "load_records e n i tm encs w = Inl err \<Longrightarrow> err = WALLET_FILE_DECRYPT_ERROR"
proof (induction encs arbitrary: i tm w)
  case Nil
  then show ?case by simp
next
  case (Cons r rs)
  from Cons.prems show ?case
    by (auto simp: load_records_Cons Let_def split: if_splits dest: Cons.IH)
qed

lemma load_records_tracking:
  "load_records e n i tm encs w = Inr w' \<Longrightarrow> i \<noteq> 0 \<Longrightarrow>
   list_all (\<lambda>r. is_tracking r = tm) (map (decrypt_record e (m_wallet_key w)) encs)"
proof (induction encs arbitrary: i w)
  case Nil
  then show ?case by simp
next
  case (Cons r rs)
  define rec where "rec = decrypt_record e (m_wallet_key w) r"
  define w1 where "w1 = w\<lparr>m_oldest_timestamp := min (m_oldest_timestamp w) (creation_timestamp rec),
                   m_records_map := map_insert (m_records_map w) (spend_public_key rec)
                                      (length (m_wallet_records w)),
                   m_wallet_records := m_wallet_records w @ [rec]\<rparr>"
  from Cons.prems have t: "is_tracking rec = tm"
    and l: "load_records e n (i + 1) tm rs w1 = Inr w'"
    by (simp_all add: load_records_Cons Let_def rec_def w1_def split: if_splits)
  from Cons.IH[OF l] t show ?case by (simp add: w1_def rec_def)
qed

lemma load_records_uniform:
  assumes "load_records e n 0 tm encs w = Inr w'"
  shows "list_all is_tracking (map (decrypt_record e (m_wallet_key w)) encs) \<or>
         list_all (\<lambda>r. \<not> is_tracking r) (map (decrypt_record e (m_wallet_key w)) encs)"
proof (cases encs)
  case Nil
  then show ?thesis by simp
next
  case (Cons r rs)
  define rec where "rec = decrypt_record e (m_wallet_key w) r"
  define w1 where "w1 = w\<lparr>m_oldest_timestamp := min (m_oldest_timestamp w) (creation_timestamp rec),
                   m_records_map := map_insert (m_records_map w) (spend_public_key rec)
                                      (length (m_wallet_records w)),
                   m_wallet_records := m_wallet_records w @ [rec]\<rparr>"
  from assms Cons have l: "load_records e n 1 (is_tracking rec) rs w1 = Inr w'"
    by (simp add: load_records_Cons Let_def rec_def w1_def split: if_splits)
  from load_records_tracking[OF l]
  have "list_all (\<lambda>r. is_tracking r = is_tracking rec) (map (decrypt_record e (m_wallet_key w)) rs)"
    by (simp add: w1_def)
  then show ?thesis
    by (cases "is_tracking rec") (simp_all add: Cons rec_def list_all_iff)
qed

lemma load_records_mixed:
  assumes j: "j < length encs" and j0: "0 < j"
    and m: "is_tracking (decrypt_record e (m_wallet_key w) (encs ! j)) \<noteq>
            is_tracking (decrypt_record e (m_wallet_key w) (encs ! 0))"
  shows "load_records e n 0 tm encs w = Inl WALLET_FILE_DECRYPT_ERROR"
proof (cases "load_records e n 0 tm encs w")
  case (Inl err)
  then show ?thesis using load_records_Inl by simp
next
  case (Inr w')
  have z: "0 < length encs" using j by (cases encs) auto
  from load_records_uniform[OF Inr] show ?thesis
  proof
    assume a: "list_all is_tracking (map (decrypt_record e (m_wallet_key w)) encs)"
    have "is_tracking (decrypt_record e (m_wallet_key w) (encs ! j))"
      using a j by (simp add: list_all_length)
    moreover have "is_tracking (decrypt_record e (m_wallet_key w) (encs ! 0))"
      using a z by (simp add: list_all_length)
    ultimately show ?thesis using m by simp
  next
    assume a: "list_all (\<lambda>r. \<not> is_tracking r) (map (decrypt_record e (m_wallet_key w)) encs)"
    have "\<not> is_tracking (decrypt_record e (m_wallet_key w) (encs ! j))"
      using a j by (simp add: list_all_length)
    moreover have "\<not> is_tracking (decrypt_record e (m_wallet_key w) (encs ! 0))"
      using a z by (simp add: list_all_length)
    ultimately show ?thesis using m by simp
  qed
qed

lemma truncate_legacy_frame:
  "m_wallet_records (truncate_legacy e n w) = m_wallet_records w \<and>
   m_oldest_timestamp (truncate_legacy e n w) = m_oldest_timestamp w \<and>
   m_wallet_key (truncate_legacy e n w) = m_wallet_key w \<and>
   m_view_public_key (truncate_legacy e n w) = m_view_public_key w \<and>
   m_view_secret_key (truncate_legacy e n w) = m_view_secret_key w"
  by (simp add: truncate_legacy_def Let_def split: option.splits sum.splits)

lemma f_read_at:
  "f_read f n = Inr (bs, f') \<Longrightarrow>
     bs = take n (drop (pos f) (content f)) \<and> pos f + n \<le> length (content f) \<and>
     pos f' = pos f + n \<and> content f' = content f"
  by (auto simp: f_read_def split: if_splits)

lemma load_container_header_Inr:
  assumes h: "load_container_header e w f = Inr (w1, n, encs)" and p: "pos f = 0"
  shows "n = min (file_item_count e (content f)) (file_item_capacity e (content f)) \<and>
         length encs = n \<and>
         m_wallet_records w1 = m_wallet_records w \<and>
         m_oldest_timestamp w1 = m_oldest_timestamp w \<and>
         m_wallet_key w1 = m_wallet_key w"
proof -
  from h obtain vd f1 px f2 ccd f3 where
    r1: "f_read f 1 = Inr (vd, f1)" and
    r2: "f_read f1 (sizeof_ContainerStoragePrefix e) = Inr (px, f2)" and
    r3: "f_read f2 (2 * sizeof_uint64_t) = Inr (ccd, f3)"
    by (auto simp: load_container_header_def split: sum.splits)
  from f_read_at[OF r1] p have f1: "pos f1 = 1" "content f1 = content f" by simp_all
  from f_read_at[OF r2] f1 have f2: "pos f2 = 1 + sizeof_ContainerStoragePrefix e"
    "content f2 = content f" by simp_all
  from f_read_at[OF r3] f2 have c: "ccd = take 16 (drop (1 + sizeof_ContainerStoragePrefix e) (content f))"
    "length ccd = 16" by (auto simp: sizeof_uint64_t_def)
  have cap: "uint_le_from_bytes (take sizeof_uint64_t ccd) = file_item_capacity e (content f)"
    by (simp add: c(1) file_item_capacity_def sizeof_uint64_t_def)
  have cnt: "uint_le_from_bytes (drop sizeof_uint64_t ccd) = file_item_count e (content f)"
  proof -
    have "drop 8 ccd = take 8 (drop (1 + sizeof_ContainerStoragePrefix e + 8) (content f))"
      by (simp add: c(1) drop_take add.commute)
    then show ?thesis by (simp add: file_item_count_def sizeof_uint64_t_def)
  qed
  have r1': "f_read f (Suc 0) = Inr (vd, f1)" using r1 by simp
  from h show ?thesis
    by (simp add: load_container_header_def r1' r2 r3 Let_def cap cnt
        split: sum.splits if_splits prod.splits)
      (auto simp: length_split_records)
qed

lemma load_container_header_Inl:
  "load_container_header e w f = Inl err \<Longrightarrow> err = WALLET_FILE_DECRYPT_ERROR \<or> err = StreamError"
  by (auto simp: load_container_header_def f_read_def Let_def
      split: sum.splits if_splits prod.splits)

lemma load_container_storage_Inr:
  assumes l: "load_container_storage e w f = Inr w'" and p: "pos f = 0"
  shows "\<exists>encs. length encs = min (file_item_count e (content f)) (file_item_capacity e (content f)) \<and>
           m_wallet_records w' = m_wallet_records w @ map (decrypt_record e (m_wallet_key w)) encs \<and>
           m_oldest_timestamp w' =
             fold (\<lambda>r m. min m (creation_timestamp r)) (map (decrypt_record e (m_wallet_key w)) encs)
               (m_oldest_timestamp w) \<and>
           (list_all is_tracking (map (decrypt_record e (m_wallet_key w)) encs) \<or>
            list_all (\<lambda>r. \<not> is_tracking r) (map (decrypt_record e (m_wallet_key w)) encs))"
proof -
  from l obtain w1 n encs w2 where
    h: "load_container_header e w f = Inr (w1, n, encs)" and
    r: "load_records e n 0 False encs w1 = Inr w2" and
    t: "w' = truncate_legacy e n w2"
    by (auto simp: load_container_storage_def split: sum.splits)
  from load_container_header_Inr[OF h p] load_records_Inr[OF r] load_records_uniform[OF r]
    truncate_legacy_frame[of e n w2] t
  show ?thesis by (intro exI[of _ encs]) simp
qed


section \<open>Evaluating the loader on the concrete files\<close>

lemma toy_chacha_zero_key: "toy_chacha toy_key bytes = bytes"
  by (induction bytes) (simp_all add: toy_chacha_def toy_key_def)

lemma uint_le_to_bytes_numeral:
  "uint_le_to_bytes (numeral k) val =
     of_nat (val mod 256) # uint_le_to_bytes (pred_numeral k) (val div 256)"
proof -
  have "uint_le_to_bytes (Suc (pred_numeral k)) val =
     of_nat (val mod 256) # uint_le_to_bytes (pred_numeral k) (val div 256)"
    by (rule uint_le_to_bytes.simps(2))
  then show ?thesis by (simp only: numeral_eq_Suc[symmetric])
qed

lemma toy_sizes:
  "sizeof_chacha_iv toy_env = 8" "sizeof_EncryptedWalletRecord toy_env = 80"
  "sizeof_ContainerStoragePrefix toy_env = 88" "sizeof_data = 72"
  by (simp_all add: toy_env_def sizeof_EncryptedWalletRecord_def sizeof_ContainerStoragePrefix_def
      sizeof_data_def sizeof_PublicKey_def sizeof_SecretKey_def sizeof_uint64_t_def)

lemma toy_env_sel:
  "chacha8 toy_env = (\<lambda>bytes key iv0. toy_chacha key bytes)"
  "keys_match toy_env = (\<lambda>sk pk. pk = toy_public sk)"
  "key_isvalid toy_env = (\<lambda>pk. True)"
  "initial_oldest_timestamp toy_env = Timestamp_max"
  "atomic_replace_file toy_env = True"
  "cn_fast_hash toy_env = toy_hash"
  "rand_chacha_iv toy_env = (\<lambda>n. replicate 8 (of_nat n))"
  "secret_key_to_public_key toy_env = (\<lambda>sk. Some (toy_public sk))"
  by (simp_all add: toy_env_def)

lemma split_records_numeral:
  "split_records sz (numeral k) bs = take sz bs # split_records sz (pred_numeral k) (drop sz bs)"
proof -
  have "split_records sz (Suc (pred_numeral k)) bs =
      take sz bs # split_records sz (pred_numeral k) (drop sz bs)"
    by (rule split_records.simps(2))
  then show ?thesis by (simp only: numeral_eq_Suc[symmetric])
qed

lemmas toy_eval = split_records_numeral
  load_container_storage_def load_container_header_def toy_stream_def toy_file_def f_read_def
  f_seek_def f_truncate_def truncate_legacy_def wallet_file_size_def toy_sizes
  toy_record_bytes_def rec_a_def rec_b_def rec_t_def sizeof_uint64_t_def uint_le_to_bytes_numeral
  Let_def SERIALIZATION_VERSION_V2_def EncryptedWalletRecord_of_bytes_def decrypt_key_pair_def
  decrypt_record_def buffer_def new_toy_wallet_def new_WalletContainerStorage_def
  sizeof_PublicKey_def sizeof_SecretKey_def sizeof_Hash_def toy_env_sel toy_chacha_zero_key
  toy_key_def[symmetric] toy_public_def size_t_max1_def load_records.simps(2) CHECK_KEYS_COUNT_def
  SecretKey0_def Timestamp_max_def map_insert_def is_tracking_def file_item_count_def
  file_item_capacity_def

lemma toy_load_2_1:
  "map_sum id (\<lambda>w. (m_wallet_records w, m_oldest_timestamp w, map_option content (m_file w)))
     (load_container_storage toy_env new_toy_wallet (toy_stream (toy_file 2 1 [rec_a, rec_b]))) =
   Inr ([rec_a], 7, Some (toy_file 2 1 [rec_a]))"
  by (simp add: toy_eval)

lemma toy_load_mixed:
  "load_container_storage toy_env new_toy_wallet (toy_stream (toy_file 2 2 [rec_a, rec_t])) = Inl WALLET_FILE_DECRYPT_ERROR"
  by (simp add: toy_eval)

lemma toy_header_mixed:
  "\<exists>w1 encs. load_container_header toy_env new_toy_wallet (toy_stream (toy_file 2 2 [rec_a, rec_t])) = Inr (w1, 2, encs) \<and>
     length encs = 2 \<and>
     is_tracking (decrypt_record toy_env (m_wallet_key new_toy_wallet) (encs ! 1)) \<and>
     \<not> is_tracking (decrypt_record toy_env (m_wallet_key new_toy_wallet) (encs ! 0))"
  by (simp add: toy_eval)

section \<open>The operations of the container wallet\<close>

lemma toy_wallet_ab_sel:
  "m_view_public_key toy_wallet_ab = replicate 32 2"
  "m_wallet_records toy_wallet_ab = [rec_a, rec_b]"
  "m_records_map toy_wallet_ab = [replicate 32 4 \<mapsto> 0, replicate 32 6 \<mapsto> 1]"
  "m_oldest_timestamp toy_wallet_ab = 5"
  by (simp_all add: toy_wallet_ab_def)

lemma new_record_import:
  "sk \<noteq> SecretKey0 \<Longrightarrow> secret_key_to_public_key e sk = Some pk \<Longrightarrow>
   new_record e ct now sk w =
     Inr (\<lparr>spend_public_key = pk, spend_secret_key = sk, creation_timestamp = ct\<rparr>, w)"
  by (simp add: new_record_def)


lemma save_and_check_frame:
  "m_wallet_records (fst (save_and_check e w)) = m_wallet_records w \<and>
   m_oldest_timestamp (fst (save_and_check e w)) = m_oldest_timestamp w \<and>
   m_records_map (fst (save_and_check e w)) = m_records_map w \<and>
   m_wallet_key (fst (save_and_check e w)) = m_wallet_key w \<and>
   m_net (fst (save_and_check e w)) = m_net w"
  by (simp add: save_and_check_def Let_def split: prod.splits sum.splits)

lemma new_record_oldest:
  "new_record e ct now sk w = Inr (rec, w1) \<Longrightarrow> m_oldest_timestamp w1 \<le> m_oldest_timestamp w"
  by (auto simp: new_record_def split: if_splits option.splits)

lemma step_oldest:
  "m_oldest_timestamp (fst (generate_new_addresses_step e ct now sk w rescan result))
     \<le> m_oldest_timestamp w"
proof (cases "new_record e ct now sk w")
  case (Inl err)
  then show ?thesis by (simp add: generate_new_addresses_step_def)
next
  case (Inr p)
  obtain rec w1 where p: "p = (rec, w1)" by (cases p) auto
  from new_record_oldest[of e ct now sk w rec w1] Inr p
  have le: "m_oldest_timestamp w1 \<le> m_oldest_timestamp w" by simp
  have "m_oldest_timestamp (fst (generate_new_addresses_step e ct now sk w rescan result))
      \<le> m_oldest_timestamp w1"
    by (simp add: generate_new_addresses_step_def Inr p Let_def
        split: option.splits sum.splits)
  with le show ?thesis by simp
qed

lemma loop_oldest:
  "m_oldest_timestamp (fst (generate_new_addresses_loop e ct now sks w rescan result))
     \<le> m_oldest_timestamp w"
proof (induction sks arbitrary: w rescan result)
  case Nil
  show ?case by simp
next
  case (Cons sk sks)
  obtain w1 rescan1 r where s: "generate_new_addresses_step e ct now sk w rescan result = (w1, rescan1, r)"
    by (cases "generate_new_addresses_step e ct now sk w rescan result") auto
  from step_oldest[of e ct now sk w rescan result] s
  have le: "m_oldest_timestamp w1 \<le> m_oldest_timestamp w" by simp
  show ?case
  proof (cases r)
    case (Inl err)
    with s le show ?thesis by simp
  next
    case (Inr result1)
    from Cons.IH[of w1 rescan1 result1] le s Inr show ?thesis by simp
  qed
qed

lemma write_counts_oldest:
  "m_oldest_timestamp (fst (write_counts e w)) = m_oldest_timestamp w"
  by (simp add: write_counts_def Let_def split: option.splits sum.splits)

lemma generate_new_addresses_oldest:
  "m_oldest_timestamp (fst (generate_new_addresses e w sks ct now rescan)) \<le> m_oldest_timestamp w"
proof (cases "is_view_only w")
  case (Inl err)
  then show ?thesis by (simp add: generate_new_addresses_def)
next
  case (Inr view_only)
  show ?thesis
  proof (cases view_only)
    case True
    with Inr show ?thesis by (simp add: generate_new_addresses_def)
  next
    case False
    obtain w0 r0 where s0: "(if m_file w = None then save_and_check e w else (w, Inr ())) = (w0, r0)"
      by (cases "if m_file w = None then save_and_check e w else (w, Inr ())") auto
    have o0: "m_oldest_timestamp w0 = m_oldest_timestamp w"
    proof (cases "m_file w = None")
      case True
      with s0 have "w0 = fst (save_and_check e w)" by simp
      then show ?thesis using save_and_check_frame by simp
    next
      case False
      with s0 show ?thesis by simp
    qed
    show ?thesis
    proof (cases r0)
      case (Inl err)
      with Inr False s0 o0 show ?thesis by (simp add: generate_new_addresses_def)
    next
      case r0: (Inr u)
      show ?thesis
      proof (cases "m_file w0")
        case None
        with Inr False s0 o0 r0 show ?thesis by (simp add: generate_new_addresses_def)
      next
        case (Some f)
        define w1 where "w1 = w0\<lparr>m_file := Some (f_seek f
            (wallet_file_size e (length (m_wallet_records w0))))\<rparr>"
        have o1: "m_oldest_timestamp w1 = m_oldest_timestamp w" by (simp add: w1_def o0)
        obtain w2 rescan2 r2 where l: "generate_new_addresses_loop e ct now sks w1 False [] = (w2, rescan2, r2)"
          by (cases "generate_new_addresses_loop e ct now sks w1 False []") auto
        from loop_oldest[of e ct now sks w1 False "[]"] l o1
        have o2: "m_oldest_timestamp w2 \<le> m_oldest_timestamp w" by simp
        have g: "generate_new_addresses e w sks ct now rescan =
            (case r2 of
               Inl err \<Rightarrow> (w2, rescan2, Inl err)
             | Inr result \<Rightarrow>
                 (case write_counts e w2 of
                    (w3, Inl err) \<Rightarrow> (w3, rescan2, Inl err)
                  | (w3, Inr _) \<Rightarrow>
                      if rescan2
                      then (case save_and_check e w3 of
                              (w4, Inl err) \<Rightarrow> (w4, rescan2, Inl err)
                            | (w4, Inr _) \<Rightarrow> (w4, rescan2, Inr result))
                      else (w3, rescan2, Inr result)))"
          using Inr False s0 r0 Some l
          by (simp add: generate_new_addresses_def Let_def w1_def[symmetric])
        show ?thesis
        proof (cases r2)
          case (Inl err)
          with g o2 show ?thesis by simp
        next
          case r2: (Inr result)
          obtain w3 r3 where wc: "write_counts e w2 = (w3, r3)" by (cases "write_counts e w2") auto
          from write_counts_oldest[of e w2] wc o2
          have o3: "m_oldest_timestamp w3 \<le> m_oldest_timestamp w" by simp
          obtain w4 r4 where sc: "save_and_check e w3 = (w4, r4)" by (cases "save_and_check e w3") auto
          from save_and_check_frame[of e w3] sc o3
          have o4: "m_oldest_timestamp w4 \<le> m_oldest_timestamp w" by simp
          from g r2 wc sc o3 o4 show ?thesis
            by (cases r3; cases r4; cases rescan2) simp_all
        qed
      qed
    qed
  qed
qed


lemma fold_min_Min:
  "fold (\<lambda>r m. min m (creation_timestamp r)) rs m0 = Min (insert m0 (creation_timestamp ` set rs))"
proof (induction rs arbitrary: m0)
  case Nil
  show ?case by simp
next
  case (Cons r rs)
  show ?case
  proof (cases "rs = []")
    case True
    then show ?thesis by (simp add: min.commute)
  next
    case False
    then have ne: "creation_timestamp ` set rs \<noteq> {}" by simp
    have "fold (\<lambda>r m. min m (creation_timestamp r)) (r # rs) m0 =
        Min (insert (min m0 (creation_timestamp r)) (creation_timestamp ` set rs))"
      using Cons.IH by simp
    also have "\<dots> = min (min m0 (creation_timestamp r)) (Min (creation_timestamp ` set rs))"
      using ne by (simp add: Min_insert)
    also have "\<dots> = Min (insert m0 (creation_timestamp ` set (r # rs)))"
      using ne by (simp add: Min_insert min.assoc)
    finally show ?thesis .
  qed
qed

lemma fold_min_Timestamp_max:
  assumes "rs \<noteq> []"
  shows "fold (\<lambda>r m. min m (creation_timestamp r)) rs Timestamp_max = Min (creation_timestamp ` set rs)"
proof -
  have ne: "creation_timestamp ` set rs \<noteq> {}" using assms by simp
  have le: "Min (creation_timestamp ` set rs) \<le> Timestamp_max" by (simp add: Timestamp_max_def)
  have "fold (\<lambda>r m. min m (creation_timestamp r)) rs Timestamp_max =
      min Timestamp_max (Min (creation_timestamp ` set rs))"
    using ne by (simp only: fold_min_Min) (simp add: Min_insert)
  also have "\<dots> = Min (creation_timestamp ` set rs)"
    using le by (rule min_absorb2)
  finally show ?thesis .
qed

lemma index_records_frame:
  "m_wallet_records (index_records rs i w) = m_wallet_records w \<and>
   m_oldest_timestamp (index_records rs i w) =
     fold (\<lambda>r m. min m (creation_timestamp r)) rs (m_oldest_timestamp w)"
  by (induction rs arbitrary: i w) simp_all

lemma load_with_oldest:
  assumes sc: "\<And>w. m_wallet_records (fst (sc w)) = m_wallet_records w \<and>
                   m_oldest_timestamp (fst (sc w)) = m_oldest_timestamp w"
    and l: "load_with sc e w f = Inr w'"
    and n: "m_wallet_records w = []"
  shows "m_wallet_records w' \<noteq> [] \<and>
         m_oldest_timestamp w' =
           fold (\<lambda>r m. min m (creation_timestamp r)) (m_wallet_records w') (m_oldest_timestamp w)"
proof -
  from l obtain vd f1 where r1: "f_read f 1 = Inr (vd, f1)"
    by (auto simp: load_with_def split: sum.splits)
  define version where "version = uint_le_from_bytes vd"
  define branch where "branch =
     (if version < SERIALIZATION_VERSION_V2
      then (case load_legacy_wallet_file e w (f_seek f1 0) of
              Inl err \<Rightarrow> Inl err
            | Inr w1 \<Rightarrow> Inr (fst (sc (w1\<lparr>m_file := None\<rparr>))))
      else load_container_storage e w (f_seek f1 0))"
  from l r1 obtain w2 where b: "branch = Inr w2"
    and ne: "m_wallet_records w2 \<noteq> []"
    and fr: "m_wallet_records w' = m_wallet_records w2" "m_oldest_timestamp w' = m_oldest_timestamp w2"
    by (auto simp: load_with_def Let_def version_def branch_def split: sum.splits if_splits)
  have "m_oldest_timestamp w2 =
      fold (\<lambda>r m. min m (creation_timestamp r)) (m_wallet_records w2) (m_oldest_timestamp w)"
  proof (cases "version < SERIALIZATION_VERSION_V2")
    case True
    with b obtain w1 where lg: "load_legacy_wallet_file e w (f_seek f1 0) = Inr w1"
      and w2: "w2 = fst (sc (w1\<lparr>m_file := None\<rparr>))"
      by (auto simp: branch_def split: sum.splits)
    from lg have "m_oldest_timestamp w1 =
        fold (\<lambda>r m. min m (creation_timestamp r)) (m_wallet_records w1) (m_oldest_timestamp w)"
      by (auto simp: load_legacy_wallet_file_def index_records_frame split: sum.splits error.splits)
    then show ?thesis using sc[of "w1\<lparr>m_file := None\<rparr>"] w2 by simp
  next
    case False
    with b have lc: "load_container_storage e w (f_seek f1 0) = Inr w2" by (simp add: branch_def)
    have "pos (f_seek f1 0) = 0" by (simp add: f_seek_def)
    from load_container_storage_Inr[OF lc this] n show ?thesis by auto
  qed
  with ne fr show ?thesis by simp
qed

lemma load_oldest:
  assumes l: "load e (new_WalletContainerStorage e net key n) f = Inr w'"
    and i: "initial_oldest_timestamp e = Timestamp_max"
  shows "m_wallet_records w' \<noteq> [] \<and>
         m_oldest_timestamp w' = Min (creation_timestamp ` set (m_wallet_records w'))"
proof -
  have sc: "\<And>w. m_wallet_records (fst (save_and_check e w)) = m_wallet_records w \<and>
                   m_oldest_timestamp (fst (save_and_check e w)) = m_oldest_timestamp w"
    using save_and_check_frame by simp
  have n: "m_wallet_records (new_WalletContainerStorage e net key n) = []"
    and o: "m_oldest_timestamp (new_WalletContainerStorage e net key n) = Timestamp_max"
    by (simp_all add: new_WalletContainerStorage_def i)
  from load_with_oldest[of "save_and_check e", OF sc l[unfolded load_def] n] o
  show ?thesis by (simp add: fold_min_Timestamp_max)
qed

lemma on_first_output_found_oldest:
  "m_oldest_timestamp (fst (on_first_output_found e w ts)) =
     (if m_net w = ''main'' \<and> ts \<noteq> 0 \<and> m_oldest_timestamp w = 0 then ts
      else m_oldest_timestamp w)"
  using save_and_check_frame by (auto simp: on_first_output_found_def)

lemma put_oldest: "m_oldest_timestamp (fst (put e w key val nooverwrite)) = m_oldest_timestamp w"
  by (simp add: put_def Let_def split: option.splits)

lemma generate_new_addresses_hd_oldest:
  "m_oldest_timestamp (fst (generate_new_addresses_hd e w sks ct now rescan)) = m_oldest_timestamp w"
proof -
  define w2 where "w2 = generate_ahead e (w\<lparr>m_used_address_count := m_used_address_count w + length sks\<rparr>)"
  have o2: "m_oldest_timestamp w2 = m_oldest_timestamp w"
    using generate_ahead_frame[of e "w\<lparr>m_used_address_count := m_used_address_count w + length sks\<rparr>"]
    by (simp add: w2_def)
  obtain w3 r3 where p: "put e w2 ADDRESS_COUNT_PREFIX (to_binary e (m_used_address_count w2)) False = (w3, r3)"
    by (cases "put e w2 ADDRESS_COUNT_PREFIX (to_binary e (m_used_address_count w2)) False") auto
  from put_oldest[of e w2 ADDRESS_COUNT_PREFIX "to_binary e (m_used_address_count w2)" False] p o2
  have o3: "m_oldest_timestamp w3 = m_oldest_timestamp w" by simp
  show ?thesis
    using o2 o3 p
    by (cases r3)
      (simp_all add: generate_new_addresses_hd_def Let_def w2_def[symmetric] commit_def
        split: sum.splits)
qed

lemma on_first_output_found_hd_oldest:
  "m_oldest_timestamp (fst (on_first_output_found_hd e w ts)) = m_oldest_timestamp w"
proof -
  obtain w1 r1 where p: "put e w (CREATION_TIMESTAMP_PREFIX @ net_append (m_net w)) (to_binary_ts e ts) False = (w1, r1)"
    by (cases "put e w (CREATION_TIMESTAMP_PREFIX @ net_append (m_net w)) (to_binary_ts e ts) False") auto
  from put_oldest[of e w "CREATION_TIMESTAMP_PREFIX @ net_append (m_net w)" "to_binary_ts e ts" False] p
  have "m_oldest_timestamp w1 = m_oldest_timestamp w" by simp
  then show ?thesis using p
    by (cases r1) (simp_all add: on_first_output_found_hd_def commit_def)
qed

text \<open>
  The second wallet of \<^verbatim>\<open>save_and_check\<close> never reaches the legacy branch of \<^verbatim>\<open>load\<close>:
  on a file that starts with a version byte of at least \<open>SERIALIZATION_VERSION_V2\<close>, as the
  file \<^verbatim>\<open>save\<close> writes does, \<open>load_with\<close> does not depend on its first argument.
\<close>

lemma load_with_V2:
  assumes "content f \<noteq> []" "pos f = 0" "SERIALIZATION_VERSION_V2 \<le> unat (hd (content f))"
  shows "load_with sc e w f = load_with sc' e w f"
proof -
  obtain b bs where c: "content f = b # bs" using assms(1) by (cases "content f") auto
  have "f_read f 1 = Inr ([b], f\<lparr>pos := 1\<rparr>)"
    using assms(2) by (simp add: f_read_def c)
  then show ?thesis using assms(3) by (simp add: load_with_def c Let_def)
qed

lemma save_version:
  "fst (save e w key view_only) \<noteq> [] \<and>
   unat (hd (fst (save e w key view_only))) = SERIALIZATION_VERSION_V2"
  by (simp add: save_def Let_def SERIALIZATION_VERSION_V2_def split: prod.splits)


section \<open>Evaluating the container operations on the concrete wallets\<close>

lemma toy_wallet_z_sel:
  "m_view_public_key toy_wallet_z = replicate 32 2"
  "m_view_secret_key toy_wallet_z = replicate 32 1"
  "m_wallet_records toy_wallet_z = [rec_z]"
  "m_records_map toy_wallet_z = [replicate 32 8 \<mapsto> 0]"
  "m_oldest_timestamp toy_wallet_z = 0"
  "m_net toy_wallet_z = ''main''"
  "m_wallet_key toy_wallet_z = toy_key"
  "rng toy_wallet_z = 0"
  by (simp_all add: toy_wallet_z_def new_toy_wallet_def new_WalletContainerStorage_def)

lemmas toy_save_eval =
  save_def save_records.simps Let_def encrypt_key_pair_def toy_env_sel toy_sizes
  buffer_def sizeof_PublicKey_def sizeof_SecretKey_def sizeof_uint64_t_def
  bytes_of_EncryptedWalletRecord_def toy_chacha_zero_key uint_le_to_bytes_numeral
  SERIALIZATION_VERSION_V2_def

lemma toy_first_output_result:
  "snd (on_first_output_found toy_env toy_wallet_z 5) = Inr ()"
  by (simp add: on_first_output_found_def toy_wallet_z_sel save_and_check_def toy_save_eval rec_z_def
      load_with_def is_view_only_def at_def wallets_equal_def
      load_container_storage_def load_container_header_def f_read_def
      f_seek_def f_truncate_def truncate_legacy_def wallet_file_size_def
      EncryptedWalletRecord_of_bytes_def decrypt_key_pair_def
      new_WalletContainerStorage_def sizeof_Hash_def
      toy_public_def size_t_max1_def load_records.simps(2) CHECK_KEYS_COUNT_def
      SecretKey0_def Timestamp_max_def map_insert_def split_records_numeral)

lemma toy_load_ab:
  "map_sum id (\<lambda>w. (m_wallet_records w, m_oldest_timestamp w))
     (load toy_env (new_WalletContainerStorage toy_env ''main'' toy_key 0)
        (toy_stream (toy_file 2 2 [rec_a, rec_b]))) =
   Inr ([rec_a, rec_b], 5)"
  by (simp add: load_def load_with_def is_view_only_def at_def toy_eval)


section \<open>The loop of \<^verbatim>\<open>generate_new_addresses\<close> on keys the wallet holds\<close>

lemma lowered_to_refl: "lowered_to ct w r w r"
  unfolding lowered_to_def
proof (intro conjI allI impI)
  fix idx assume "idx < length (m_wallet_records w)"
  show "\<exists>c'. m_wallet_records w ! idx = (m_wallet_records w ! idx)\<lparr>creation_timestamp := c'\<rparr> \<and>
             (c' = creation_timestamp (m_wallet_records w ! idx) \<or>
              c' = ct \<and> ct < creation_timestamp (m_wallet_records w ! idx))"
    by (rule exI[of _ "creation_timestamp (m_wallet_records w ! idx)"]) simp
qed simp_all

lemma lowered_to_trans:
  assumes a: "lowered_to ct w r w1 r1" and b: "lowered_to ct w1 r1 w2 r2"
  shows "lowered_to ct w r w2 r2"
  unfolding lowered_to_def
proof (intro conjI allI impI)
  from a b show "length (m_wallet_records w) \<le> length (m_wallet_records w2)"
    by (simp add: lowered_to_def)
next
  fix idx assume i: "idx < length (m_wallet_records w)"
  with a have i1: "idx < length (m_wallet_records w1)" by (simp add: lowered_to_def)
  from a i obtain c1 where
    c1: "m_wallet_records w1 ! idx = (m_wallet_records w ! idx)\<lparr>creation_timestamp := c1\<rparr>"
      "c1 = creation_timestamp (m_wallet_records w ! idx) \<or>
       c1 = ct \<and> ct < creation_timestamp (m_wallet_records w ! idx)"
    unfolding lowered_to_def by blast
  from b i1 obtain c2 where
    c2: "m_wallet_records w2 ! idx = (m_wallet_records w1 ! idx)\<lparr>creation_timestamp := c2\<rparr>"
      "c2 = creation_timestamp (m_wallet_records w1 ! idx) \<or>
       c2 = ct \<and> ct < creation_timestamp (m_wallet_records w1 ! idx)"
    unfolding lowered_to_def by blast
  show "\<exists>c'. m_wallet_records w2 ! idx = (m_wallet_records w ! idx)\<lparr>creation_timestamp := c'\<rparr> \<and>
             (c' = creation_timestamp (m_wallet_records w ! idx) \<or>
              c' = ct \<and> ct < creation_timestamp (m_wallet_records w ! idx))"
  proof (rule exI[of _ c2], rule conjI)
    show "m_wallet_records w2 ! idx = (m_wallet_records w ! idx)\<lparr>creation_timestamp := c2\<rparr>"
      by (simp add: c2(1) c1(1))
    from c1 c2(2) show "c2 = creation_timestamp (m_wallet_records w ! idx) \<or>
       c2 = ct \<and> ct < creation_timestamp (m_wallet_records w ! idx)"
      by auto
  qed
next
  assume r from a b this show r2 by (simp add: lowered_to_def)
next
  fix idx assume n: "\<not> r2" and i: "idx < length (m_wallet_records w)"
  from b n have n1: "\<not> r1" by (auto simp: lowered_to_def)
  from a i have i1: "idx < length (m_wallet_records w1)" by (simp add: lowered_to_def)
  from b n i1 have "m_wallet_records w2 ! idx = m_wallet_records w1 ! idx" by (simp add: lowered_to_def)
  also from a n1 i have "\<dots> = m_wallet_records w ! idx" by (simp add: lowered_to_def)
  finally show "m_wallet_records w2 ! idx = m_wallet_records w ! idx" .
next
  fix pk i assume "m_records_map w pk = Some i"
  with a have "m_records_map w1 pk = Some i" by (simp add: lowered_to_def)
  with b show "m_records_map w2 pk = Some i" by (simp add: lowered_to_def)
qed

lemma random_new_keypair_new:
  assumes s: "random_new_keypair e records_map n = Some p"
  shows "records_map (public_key (fst p)) = None"
proof (induction rule: random_new_keypair.raw_induct[OF _ s])
  case (1 random_new_keypair' e records_map n p)
  then show ?case by (auto split: if_splits)
qed

lemma new_record_Inr:
  assumes "new_record e ct now sk w = Inr (rec, w1)"
  shows "m_wallet_records w1 = m_wallet_records w" "m_records_map w1 = m_records_map w"
    "sk = SecretKey0 \<Longrightarrow> m_records_map w (spend_public_key rec) = None"
    "sk \<noteq> SecretKey0 \<Longrightarrow> creation_timestamp rec = ct"
proof -
  show "m_wallet_records w1 = m_wallet_records w" "m_records_map w1 = m_records_map w"
    "sk \<noteq> SecretKey0 \<Longrightarrow> creation_timestamp rec = ct"
    using assms by (auto simp: new_record_def split: if_splits option.splits)
  show "m_records_map w (spend_public_key rec) = None" if z: "sk = SecretKey0"
  proof -
    from assms z obtain kp n' where
      k: "random_new_keypair e (m_records_map w) (rng w) = Some (kp, n')"
      and r: "spend_public_key rec = public_key kp"
      by (auto simp: new_record_def split: option.splits)
    from random_new_keypair_new[OF k] r show ?thesis by simp
  qed
qed

lemma step_present:
  assumes nr: "new_record e ct now sk w = Inr (rec, w1)"
    and m: "m_records_map w1 (spend_public_key rec) = Some idx"
    and i: "idx < length (m_wallet_records w1)"
  shows "generate_new_addresses_step e ct now sk w rescan_from_ct result =
     (let stored = m_wallet_records w1 ! idx
      in if creation_timestamp stored > creation_timestamp rec
         then (w1\<lparr>m_wallet_records :=
                     (m_wallet_records w1)[idx := stored\<lparr>creation_timestamp := creation_timestamp rec\<rparr>],
                   m_oldest_timestamp := min (m_oldest_timestamp w1) (creation_timestamp rec)\<rparr>,
               True,
               Inr (result @ [stored\<lparr>creation_timestamp := creation_timestamp rec\<rparr>]))
         else (w1, rescan_from_ct, Inr (result @ [stored])))"
  using i by (simp add: generate_new_addresses_step_def nr m at_def Let_def)

lemma step_lowered:
  assumes s: "generate_new_addresses_step e ct now sk w r res = (w', r', Inr res')"
  shows "lowered_to ct w r w' r' \<and> (\<exists>x. res' = res @ [x])"
proof -
  from s obtain rec w1 where nr: "new_record e ct now sk w = Inr (rec, w1)"
    by (cases "new_record e ct now sk w") (auto simp: generate_new_addresses_step_def)
  note n = new_record_Inr[OF nr]
  show ?thesis
  proof (cases "m_records_map w1 (spend_public_key rec)")
    case (Some idx)
    with n(2,3) have sk: "sk \<noteq> SecretKey0" by auto
    from n(4)[OF sk] have c: "creation_timestamp rec = ct" .
    from s nr Some have i: "idx < length (m_wallet_records w1)"
      by (auto simp: generate_new_addresses_step_def at_def split: if_splits)
    note eq = step_present[OF nr Some i, of r res, unfolded s c Let_def]
    show ?thesis
    proof (cases "creation_timestamp (m_wallet_records w1 ! idx) > ct")
      case True
      with eq have w': "m_wallet_records w' =
          (m_wallet_records w)[idx := (m_wallet_records w ! idx)\<lparr>creation_timestamp := ct\<rparr>]"
        and m': "m_records_map w' = m_records_map w" and r': "r'"
        and res': "res' = res @ [(m_wallet_records w ! idx)\<lparr>creation_timestamp := ct\<rparr>]"
        by (auto simp: n(1,2))
      have "lowered_to ct w r w' r'"
        unfolding lowered_to_def
      proof (intro conjI allI impI)
        fix j assume j: "j < length (m_wallet_records w)"
        show "\<exists>c'. m_wallet_records w' ! j = (m_wallet_records w ! j)\<lparr>creation_timestamp := c'\<rparr> \<and>
             (c' = creation_timestamp (m_wallet_records w ! j) \<or>
              c' = ct \<and> ct < creation_timestamp (m_wallet_records w ! j))"
        proof (cases "j = idx")
          case True
          with j \<open>creation_timestamp (m_wallet_records w1 ! idx) > ct\<close> show ?thesis
            by (intro exI[of _ ct]) (simp add: w' n(1))
        next
          case False
          with j show ?thesis
            by (intro exI[of _ "creation_timestamp (m_wallet_records w ! j)"]) (simp add: w')
        qed
      qed (simp_all add: w' m' r')
      with res' show ?thesis by simp
    next
      case False
      with eq have "w' = w1" "r' = r" "res' = res @ [m_wallet_records w1 ! idx]" by auto
      moreover have "lowered_to ct w r w1 r"
        using lowered_to_refl[of ct w r] by (simp add: lowered_to_def n(1,2))
      ultimately show ?thesis by simp
    qed
  next
    case None
    from s nr None obtain f1 where
      w': "m_wallet_records w' = m_wallet_records w @ [rec]"
      and m': "m_records_map w' =
         map_insert (m_records_map w) (spend_public_key rec) (length (m_wallet_records w))"
      and r': "r' = r" and res': "res' = res @ [rec]"
      by (auto simp: generate_new_addresses_step_def Let_def n(1,2) split: option.splits sum.splits)
    from None have mn: "m_records_map w (spend_public_key rec) = None" by (simp add: n(2))
    have "lowered_to ct w r w' r'"
      unfolding lowered_to_def
    proof (intro conjI allI impI)
      fix j assume j: "j < length (m_wallet_records w)"
      then show "\<exists>c'. m_wallet_records w' ! j = (m_wallet_records w ! j)\<lparr>creation_timestamp := c'\<rparr> \<and>
             (c' = creation_timestamp (m_wallet_records w ! j) \<or>
              c' = ct \<and> ct < creation_timestamp (m_wallet_records w ! j))"
        by (intro exI[of _ "creation_timestamp (m_wallet_records w ! j)"]) (simp add: w' nth_append)
    next
      fix pk i assume "m_records_map w pk = Some i"
      with mn show "m_records_map w' pk = Some i"
        by (auto simp: m' map_insert_def)
    qed (simp_all add: w' r' nth_append)
    with res' show ?thesis by simp
  qed
qed


lemma loop_lowered:
  "generate_new_addresses_loop e ct now sks w r res = (w', r', Inr res') \<Longrightarrow>
   lowered_to ct w r w' r' \<and> (\<exists>new. res' = res @ new \<and> length new = length sks)"
proof (induction sks arbitrary: w r res)
  case Nil
  then show ?case by (simp add: lowered_to_refl)
next
  case (Cons sk sks)
  obtain w1 r1 x where s: "generate_new_addresses_step e ct now sk w r res = (w1, r1, x)"
    by (cases "generate_new_addresses_step e ct now sk w r res") auto
  with Cons.prems obtain res1 where x: "x = Inr res1" by (cases x) auto
  from Cons.prems s x have l: "generate_new_addresses_loop e ct now sks w1 r1 res1 = (w', r', Inr res')"
    by simp
  from step_lowered[OF s[unfolded x]] obtain y where
    a: "lowered_to ct w r w1 r1" and y: "res1 = res @ [y]" by auto
  from Cons.IH[OF l] obtain new where
    b: "lowered_to ct w1 r1 w' r'" and new: "res' = res1 @ new" "length new = length sks" by auto
  from lowered_to_trans[OF a b] y new show ?case by simp
qed

lemma loop_append:
  "generate_new_addresses_loop e ct now (xs @ ys) w r res =
     (case generate_new_addresses_loop e ct now xs w r res of
        (w1, r1, Inl err) \<Rightarrow> (w1, r1, Inl err)
      | (w1, r1, Inr res1) \<Rightarrow> generate_new_addresses_loop e ct now ys w1 r1 res1)"
proof (induction xs arbitrary: w r res)
  case Nil
  show ?case by simp
next
  case (Cons sk xs)
  obtain w1 r1 x where s: "generate_new_addresses_step e ct now sk w r res = (w1, r1, x)"
    by (cases "generate_new_addresses_step e ct now sk w r res") auto
  show ?case
  proof (cases x)
    case (Inl err)
    with s show ?thesis by simp
  next
    case (Inr res1)
    with s Cons.IH[of w1 r1 res1] show ?thesis by simp
  qed
qed

lemma loop_present:
  assumes l: "generate_new_addresses_loop e ct now sks w r res = (w', r', Inr res')"
    and i: "i < length sks" and sk: "sks ! i \<noteq> SecretKey0"
    and pk: "secret_key_to_public_key e (sks ! i) = Some pk"
    and m: "m_records_map w pk = Some idx" and idx: "idx < length (m_wallet_records w)"
  shows "m_wallet_records w' ! idx =
           (m_wallet_records w ! idx)
             \<lparr>creation_timestamp := min (creation_timestamp (m_wallet_records w ! idx)) ct\<rparr>"
    and "res' ! (length res + i) =
           (m_wallet_records w ! idx)
             \<lparr>creation_timestamp := min (creation_timestamp (m_wallet_records w ! idx)) ct\<rparr>"
    and "ct < creation_timestamp (m_wallet_records w ! idx) \<Longrightarrow> r'"
proof -
  define stored where "stored = m_wallet_records w ! idx"
  define c where "c = creation_timestamp stored"
  have sks: "sks = take i sks @ [sks ! i] @ drop (Suc i) sks"
    using i by (simp add: id_take_nth_drop[symmetric])
  obtain w1 r1 x1 where p1: "generate_new_addresses_loop e ct now (take i sks) w r res = (w1, r1, x1)"
    by (cases "generate_new_addresses_loop e ct now (take i sks) w r res") auto
  from l have l': "generate_new_addresses_loop e ct now (take i sks @ [sks ! i] @ drop (Suc i) sks) w r res
      = (w', r', Inr res')"
    using sks by simp
  from l' p1 obtain res1 where x1: "x1 = Inr res1"
    by (cases x1) (auto simp: loop_append[of e ct now "take i sks"])
  from l' p1 x1 have l2: "generate_new_addresses_loop e ct now ([sks ! i] @ drop (Suc i) sks) w1 r1 res1
      = (w', r', Inr res')"
    by (simp add: loop_append[of e ct now "take i sks"])
  obtain w2 r2 x2 where p2: "generate_new_addresses_step e ct now (sks ! i) w1 r1 res1 = (w2, r2, x2)"
    by (cases "generate_new_addresses_step e ct now (sks ! i) w1 r1 res1") auto
  from l2 p2 obtain res2 where x2: "x2 = Inr res2" by (cases x2) auto
  from l2 p2 x2 have l3: "generate_new_addresses_loop e ct now (drop (Suc i) sks) w2 r2 res2
      = (w', r', Inr res')" by simp
  from loop_lowered[OF p1[unfolded x1]] obtain new1 where
    a: "lowered_to ct w r w1 r1" and n1: "res1 = res @ new1" "length new1 = length (take i sks)"
    by auto
  from loop_lowered[OF l3] obtain new3 where
    b: "lowered_to ct w2 r2 w' r'" and n3: "res' = res2 @ new3" by auto
  from a m have m1: "m_records_map w1 pk = Some idx" by (simp add: lowered_to_def)
  from a idx have idx1: "idx < length (m_wallet_records w1)" by (simp add: lowered_to_def)
  from a idx obtain c1 where
    c1: "m_wallet_records w1 ! idx = stored\<lparr>creation_timestamp := c1\<rparr>"
      "c1 = c \<or> c1 = ct \<and> ct < c"
    unfolding lowered_to_def stored_def c_def by blast
  from a idx have u1: "\<not> r1 \<Longrightarrow> m_wallet_records w1 ! idx = stored"
    by (simp add: lowered_to_def stored_def)
  have nr: "new_record e ct now (sks ! i) w1 =
      Inr (\<lparr>spend_public_key = pk, spend_secret_key = sks ! i, creation_timestamp = ct\<rparr>, w1)"
    by (rule new_record_import[OF sk pk])
  have m1': "m_records_map w1 (spend_public_key
      \<lparr>spend_public_key = pk, spend_secret_key = sks ! i, creation_timestamp = ct\<rparr>) = Some idx"
    using m1 by simp
  note eq = step_present[OF nr m1' idx1, of r1 res1, unfolded p2 x2 Let_def]
  have w2: "m_wallet_records w2 ! idx = stored\<lparr>creation_timestamp := min c ct\<rparr>"
    and idx2: "idx < length (m_wallet_records w2)"
    and res2: "res2 = res1 @ [stored\<lparr>creation_timestamp := min c ct\<rparr>]"
    and r2: "ct < c \<Longrightarrow> r2"
  proof -
    show "m_wallet_records w2 ! idx = stored\<lparr>creation_timestamp := min c ct\<rparr>"
      using eq c1 idx1 by (auto simp: min_def split: if_splits)
    show "idx < length (m_wallet_records w2)"
      using eq idx1 by (auto split: if_splits)
    show "res2 = res1 @ [stored\<lparr>creation_timestamp := min c ct\<rparr>]"
      using eq c1 by (auto simp: min_def split: if_splits)
    show "r2" if "ct < c"
    proof (cases "c1 = c")
      case True
      with eq c1 that show ?thesis by (auto split: if_splits)
    next
      case False
      have r1
      proof (rule ccontr)
        assume "\<not> r1"
        from u1[OF this] c1(1) have "stored = stored\<lparr>creation_timestamp := c1\<rparr>" by simp
        then have "creation_timestamp stored = creation_timestamp (stored\<lparr>creation_timestamp := c1\<rparr>)"
          by (rule arg_cong)
        with False show False by (simp add: c_def)
      qed
      moreover have "r1 \<longrightarrow> r2" using eq by (auto split: if_splits)
      ultimately show ?thesis by simp
    qed
  qed
  from b idx2 obtain c3 where
    c3: "m_wallet_records w' ! idx = (m_wallet_records w2 ! idx)\<lparr>creation_timestamp := c3\<rparr>"
      "c3 = creation_timestamp (m_wallet_records w2 ! idx) \<or>
       c3 = ct \<and> ct < creation_timestamp (m_wallet_records w2 ! idx)"
    unfolding lowered_to_def by blast
  from c3 w2 have "m_wallet_records w' ! idx = stored\<lparr>creation_timestamp := min c ct\<rparr>"
    by (auto simp: min_def)
  then show "m_wallet_records w' ! idx =
           (m_wallet_records w ! idx)
             \<lparr>creation_timestamp := min (creation_timestamp (m_wallet_records w ! idx)) ct\<rparr>"
    by (simp add: stored_def c_def)
  have "length res1 = length res + i" using n1 i by simp
  with n3 res2 have "res' ! (length res + i) = stored\<lparr>creation_timestamp := min c ct\<rparr>"
    by (simp add: nth_append)
  then show "res' ! (length res + i) =
           (m_wallet_records w ! idx)
             \<lparr>creation_timestamp := min (creation_timestamp (m_wallet_records w ! idx)) ct\<rparr>"
    by (simp add: stored_def c_def)
  show "r'" if "ct < creation_timestamp (m_wallet_records w ! idx)"
  proof -
    from that r2 have r2 by (simp add: c_def stored_def)
    with b show ?thesis by (simp add: lowered_to_def)
  qed
qed

lemma loop_all_present:
  assumes "\<forall>sk \<in> set sks. sk \<noteq> SecretKey0 \<and>
      (\<exists>pk idx. secret_key_to_public_key e sk = Some pk \<and> m_records_map w pk = Some idx \<and>
         idx < length (m_wallet_records w) \<and>
         creation_timestamp (m_wallet_records w ! idx) \<le> ct)"
  shows "\<exists>new. generate_new_addresses_loop e ct now sks w r res = (w, r, Inr (res @ new))"
  using assms
proof (induction sks arbitrary: res)
  case Nil
  show ?case by simp
next
  case (Cons sk sks)
  from Cons.prems obtain pk idx where sk: "sk \<noteq> SecretKey0"
    and pk: "secret_key_to_public_key e sk = Some pk" and m: "m_records_map w pk = Some idx"
    and idx: "idx < length (m_wallet_records w)"
    and le: "creation_timestamp (m_wallet_records w ! idx) \<le> ct"
    by auto
  have m': "m_records_map w (spend_public_key
      \<lparr>spend_public_key = pk, spend_secret_key = sk, creation_timestamp = ct\<rparr>) = Some idx"
    using m by simp
  from step_present[OF new_record_import[OF sk pk] m' idx, of now r res] le
  have s: "generate_new_addresses_step e ct now sk w r res = (w, r, Inr (res @ [m_wallet_records w ! idx]))"
    by (simp add: Let_def not_less[symmetric])
  from Cons.prems have "\<forall>sk \<in> set sks. sk \<noteq> SecretKey0 \<and>
      (\<exists>pk idx. secret_key_to_public_key e sk = Some pk \<and> m_records_map w pk = Some idx \<and>
         idx < length (m_wallet_records w) \<and>
         creation_timestamp (m_wallet_records w ! idx) \<le> ct)" by simp
  from Cons.IH[OF this, of "res @ [m_wallet_records w ! idx]"] s show ?case by auto
qed


lemma write_counts_frame:
  "m_wallet_records (fst (write_counts e w)) = m_wallet_records w"
  by (simp add: write_counts_def Let_def split: option.splits sum.splits)

lemma generate_new_addresses_Inr:
  assumes g: "generate_new_addresses e w sks ct now rescan_from_ct = (w', rescan, Inr result)"
  shows "\<exists>w1 w2. m_wallet_records w1 = m_wallet_records w \<and> m_records_map w1 = m_records_map w \<and>
           generate_new_addresses_loop e ct now sks w1 False [] = (w2, rescan, Inr result) \<and>
           m_wallet_records w' = m_wallet_records w2"
proof -
  from g have v: "is_view_only w = Inr False"
    by (cases "is_view_only w") (auto simp: generate_new_addresses_def split: bool.splits)
  obtain w0 r0 where s0: "(if m_file w = None then save_and_check e w else (w, Inr ())) = (w0, r0)"
    by (cases "if m_file w = None then save_and_check e w else (w, Inr ())") auto
  have f0: "m_wallet_records w0 = m_wallet_records w \<and> m_records_map w0 = m_records_map w"
  proof (cases "m_file w = None")
    case True
    with s0 have "w0 = fst (save_and_check e w)" by simp
    then show ?thesis using save_and_check_frame[of e w] by simp
  next
    case False
    with s0 show ?thesis by simp
  qed
  from g v s0 obtain u where r0: "r0 = Inr u"
    by (cases r0) (auto simp: generate_new_addresses_def)
  from g v s0 r0 obtain f where f: "m_file w0 = Some f"
    by (cases "m_file w0") (auto simp: generate_new_addresses_def)
  define w1 where "w1 = w0\<lparr>m_file := Some (f_seek f
      (wallet_file_size e (length (m_wallet_records w0))))\<rparr>"
  have f1: "m_wallet_records w1 = m_wallet_records w" "m_records_map w1 = m_records_map w"
    by (simp_all add: w1_def f0)
  obtain w2 rescan2 r2 where l: "generate_new_addresses_loop e ct now sks w1 False [] = (w2, rescan2, r2)"
    by (cases "generate_new_addresses_loop e ct now sks w1 False []") auto
  have g': "generate_new_addresses e w sks ct now rescan_from_ct =
      (case r2 of
         Inl err \<Rightarrow> (w2, rescan2, Inl err)
       | Inr result \<Rightarrow>
           (case write_counts e w2 of
              (w3, Inl err) \<Rightarrow> (w3, rescan2, Inl err)
            | (w3, Inr _) \<Rightarrow>
                if rescan2
                then (case save_and_check e w3 of
                        (w4, Inl err) \<Rightarrow> (w4, rescan2, Inl err)
                      | (w4, Inr _) \<Rightarrow> (w4, rescan2, Inr result))
                else (w3, rescan2, Inr result)))"
    using v s0 r0 f l by (simp add: generate_new_addresses_def Let_def w1_def[symmetric])
  from g g' obtain result2 where r2: "r2 = Inr result2" by (cases r2) auto
  obtain w3 r3 where wc: "write_counts e w2 = (w3, r3)" by (cases "write_counts e w2") auto
  from write_counts_frame[of e w2] wc have f3: "m_wallet_records w3 = m_wallet_records w2" by simp
  obtain w4 r4 where sc: "save_and_check e w3 = (w4, r4)" by (cases "save_and_check e w3") auto
  from save_and_check_frame[of e w3] sc have f4: "m_wallet_records w4 = m_wallet_records w3" by simp
  from g g' r2 wc sc have "rescan = rescan2 \<and> result = result2 \<and> (w' = w3 \<or> w' = w4)"
    by (cases r3; cases r4; cases rescan2) auto
  with f3 f4 have "rescan = rescan2" "result = result2" "m_wallet_records w' = m_wallet_records w2"
    by auto
  with l r2 f1 show ?thesis by blast
qed

lemma toy_wallet_ab_sel2:
  "m_view_secret_key toy_wallet_ab = replicate 32 1"
  "m_net toy_wallet_ab = ''main''"
  "m_wallet_key toy_wallet_ab = toy_key"
  "rng toy_wallet_ab = 0"
  "m_file toy_wallet_ab = Some \<lparr>content = toy_file 2 2 [rec_a, rec_b], pos = 265, read_only = False\<rparr>"
  by (simp_all add: toy_wallet_ab_def new_toy_wallet_def new_WalletContainerStorage_def)

lemma toy_generate_not_larger:
  "snd (generate_new_addresses toy_env toy_wallet_ab [replicate 32 3, replicate 32 5] 8 9 True) =
     (False, Inr [rec_a, rec_b])"
  by (simp add: generate_new_addresses_def is_view_only_def at_def toy_wallet_ab_sel toy_wallet_ab_sel2
      generate_new_addresses_step_def new_record_def SecretKey0_def sizeof_SecretKey_def
      toy_env_sel toy_public_def rec_a_def rec_b_def write_counts_def f_write_def f_seek_def Let_def)

lemma toy_generate_larger:
  "snd (generate_new_addresses toy_env toy_wallet_ab [replicate 32 3, replicate 32 5] 6 9 False) =
     (True, Inr [rec_a\<lparr>creation_timestamp := 6\<rparr>, rec_b])"
  by (simp add: generate_new_addresses_def is_view_only_def at_def toy_wallet_ab_sel toy_wallet_ab_sel2
      generate_new_addresses_step_def new_record_def SecretKey0_def sizeof_SecretKey_def
      toy_env_sel toy_public_def rec_a_def rec_b_def write_counts_def f_write_def f_seek_def Let_def
      save_and_check_def toy_save_eval
      load_with_def wallets_equal_def
      load_container_storage_def load_container_header_def f_read_def
      f_truncate_def truncate_legacy_def wallet_file_size_def
      EncryptedWalletRecord_of_bytes_def decrypt_key_pair_def
      new_WalletContainerStorage_def sizeof_Hash_def
      size_t_max1_def load_records.simps(2) CHECK_KEYS_COUNT_def
      Timestamp_max_def map_insert_def split_records_numeral)
section \<open>Lemmas: \<^verbatim>\<open>generate_mnemonic\<close>\<close>















lemma toy_tables_sel:
  "BITS_PER_WORD toy_tables = 11" "WORDS_COUNT toy_tables = 3"
  "WORDS_MIN_LEN toy_tables = 3" "WORDS_MAX_LEN toy_tables = 4"
  "word_chars toy_tables = (\<lambda>i. if i = 0 then ''cat'' else if i = 1 then ''dog'' else ''bird'')"
  "word_crc32_adj toy_tables = (\<lambda>i. if i = 0 then 1 else if i = 1 then 2 else 4)"
  "words_bylen toy_tables = (\<lambda>l. if l = 0 then 2 else 3)"
  "crc32_step_zero toy_tables = (\<lambda>x. x + 1)"
  "crc32_reverse_step_zero toy_tables = (\<lambda>x. x - 1)"
  "rand_size_t toy_tables = (\<lambda>n. n)"
  by (simp_all add: toy_tables_def)




lemma funpow_3: "(f ^^ 3) x = f (f (f x))"
  by (simp add: numeral_3_eq_3)



lemma toy_sample: "sample_prefix toy_tables (Suc (Suc 0)) 0 0 = ([0, 1], 7, 2)"
  by (simp add: toy_tables_sel crc32_word_def funpow_3)





section \<open>Claims\<close>

subsection \<open>C1: the round trip of an encrypted value and its length\<close>

text \<open>
  C1 (as amended). For every byte string \<open>plain\<close> of at most \<open>2 ^ 31\<close> bytes, every 32-byte
  iv that \<^verbatim>\<open>encrypt_data\<close> draws and every cipher that keeps the length of its input and
  undoes itself under the same key, \<^verbatim>\<open>encrypt_data\<close> returns, \<^verbatim>\<open>decrypt_data\<close> of its
  result under the same wallet key is exactly \<open>plain\<close>, and the length of the result is at
  least 256 and is a power of two: the 32 bytes of the iv are counted inside the power of
  two, not added to it.
\<close>

theorem C1_encrypt_decrypt_roundtrip:
  assumes len: "length plain \<le> 2 ^ 31"
    and iv: "length iv0 = 32"
    and clen: "\<And>key bytes. length (chacha20 e key bytes) = length bytes"
    and cinv: "\<And>key bytes. chacha20 e key (chacha20 e key bytes) = bytes"
  shows "\<exists>enc. encrypt_data e wallet_key iv0 plain = Some enc \<and>
           decrypt_data e wallet_key enc = Inr plain \<and>
           256 \<le> length enc \<and> is_power_of_two (length enc)"
proof -
  from encrypt_data_Some[OF len, of e wallet_key iv0]
  obtain k where k: "8 \<le> k" "k \<le> 63" "length plain + 36 \<le> 2 ^ k"
    and enc: "encrypt_data e wallet_key iv0 plain =
       Some (iv0 @ chacha20 e (cn_fast_hash e (wallet_key @ iv0))
         (uint_le_to_bytes 4 (length plain) @ plain @ replicate (2 ^ k - 36 - length plain) 0))"
    by blast
  define large where
    "large = uint_le_to_bytes 4 (length plain) @ plain @ replicate (2 ^ k - 36 - length plain) 0"
  define enc where "enc = iv0 @ chacha20 e (cn_fast_hash e (wallet_key @ iv0)) large"
  have ll: "length large = 2 ^ k - 32"
    using k(3) by (simp add: large_def length_uint_le_to_bytes)
  have le: "length enc = 2 ^ k"
    using k(3) by (simp add: enc_def clen ll iv)
  have "(2::nat) ^ 8 \<le> 2 ^ k" using k(1) by (intro power_increasing) auto
  then have l256: "256 \<le> length enc" by (simp add: le)
  have t4: "take 4 large = uint_le_to_bytes 4 (length plain)"
    by (simp add: large_def length_uint_le_to_bytes)
  have d4: "drop 4 large = plain @ replicate (2 ^ k - 36 - length plain) 0"
    by (simp add: large_def length_uint_le_to_bytes)
  have "length plain < 256 ^ 4" using len by simp
  then have rs: "uint_le_from_bytes (uint_le_to_bytes 4 (length plain)) = length plain"
    by (rule uint_le_roundtrip)
  have "decrypt_data e wallet_key enc = Inr plain"
    using l256 k(3)
    by (simp add: decrypt_data_def sizeof_Hash_def enc_def iv cinv t4 d4 rs ll Let_def)
  moreover have "is_power_of_two (length enc)" by (simp add: le is_power_of_two_power)
  ultimately show ?thesis using enc l256 by (simp add: enc_def large_def)
qed

theorem C1_encrypt_decrypt_roundtrip_witness:
  "length [1, 2, 3 :: byte] \<le> 2 ^ 31 \<and> length (replicate 32 (7 :: byte)) = 32 \<and>
   (\<exists>enc. encrypt_data toy_env (replicate 32 1) (replicate 32 7) [1, 2, 3] = Some enc \<and>
      decrypt_data toy_env (replicate 32 1) enc = Inr [1, 2, 3] \<and>
      256 \<le> length enc \<and> is_power_of_two (length enc))"
proof -
  have c: "chacha20 toy_env = toy_chacha" by (simp add: toy_env_def)
  from C1_encrypt_decrypt_roundtrip [where plain = "[1, 2, 3]" and ?iv0.0 = "replicate 32 7"
      and e = toy_env and wallet_key = "replicate 32 1"]
  show ?thesis by (simp add: c toy_chacha_length toy_chacha_inv)
qed

text \<open>
  C1 as stated fails: the encryption of the empty string is 256 bytes long, and 256 is not
  a power of two plus 32, since 224 is not a power of two.
\<close>

theorem C1_length_counterexample:
  "map_option length (encrypt_data toy_env (replicate 32 1) (replicate 32 7) []) = Some 256 \<and>
   \<not> is_power_of_two (256 - 32)"
proof -
  have c: "chacha20 toy_env = toy_chacha" by (simp add: toy_env_def)
  show ?thesis
    by (simp add: encrypt_data_def grow_actual_size.simps MIN_SIZE_def EXTRA_SIZE_def
        sizeof_Hash_def size_t_max1_def c toy_chacha_length is_power_of_two.simps
        length_uint_le_to_bytes)
qed

subsection \<open>C2: \<open>m_oldest_timestamp\<close>\<close>

text \<open>
  C2 (as amended). After a successful load into a newly constructed container wallet (one
  whose \<open>m_oldest_timestamp\<close> starts at the largest \<^verbatim>\<open>Timestamp\<close>), the wallet has records
  and \<open>m_oldest_timestamp\<close> is the minimum \<open>creation_timestamp\<close> over them. After that,
  \<^verbatim>\<open>generate_new_addresses\<close> never increases it and \<^verbatim>\<open>save_and_check\<close> never changes
  it, whether they return or throw, and the HD wallet's \<^verbatim>\<open>generate_new_addresses\<close> and
  \<^verbatim>\<open>on_first_output_found\<close> never change it. The container wallet's
  \<^verbatim>\<open>on_first_output_found(ts)\<close> is the exception: on the net \<open>main\<close>, when
  \<open>m_oldest_timestamp\<close> is 0 (unknown) and \<open>ts\<close> is not 0, it sets \<open>m_oldest_timestamp\<close> to
  \<open>ts\<close>; in every other case it leaves it as it is.
\<close>

theorem C2_oldest_timestamp:
  "(initial_oldest_timestamp e = Timestamp_max \<and>
    load e (new_WalletContainerStorage e net key n) f = Inr w' \<longrightarrow>
      m_wallet_records w' \<noteq> [] \<and>
      m_oldest_timestamp w' = Min (creation_timestamp ` set (m_wallet_records w'))) \<and>
   m_oldest_timestamp (fst (generate_new_addresses e w sks ct now rescan)) \<le> m_oldest_timestamp w \<and>
   m_oldest_timestamp (fst (save_and_check e w)) = m_oldest_timestamp w \<and>
   m_oldest_timestamp (fst (on_first_output_found e w ts)) =
     (if m_net w = ''main'' \<and> ts \<noteq> 0 \<and> m_oldest_timestamp w = 0 then ts
      else m_oldest_timestamp w) \<and>
   m_oldest_timestamp (fst (generate_new_addresses_hd e h sks ct now rescan)) = m_oldest_timestamp h \<and>
   m_oldest_timestamp (fst (on_first_output_found_hd e h ts)) = m_oldest_timestamp h"
  using load_oldest[of e net key n f w'] generate_new_addresses_oldest[of e w sks ct now rescan]
    save_and_check_frame[of e w] on_first_output_found_oldest[of e w ts]
    generate_new_addresses_hd_oldest[of e h sks ct now rescan] on_first_output_found_hd_oldest[of e h ts]
  by simp

theorem C2_oldest_timestamp_witness:
  "initial_oldest_timestamp toy_env = Timestamp_max \<and>
   (\<exists>w'. load toy_env (new_WalletContainerStorage toy_env ''main'' toy_key 0)
           (toy_stream (toy_file 2 2 [rec_a, rec_b])) = Inr w' \<and>
         m_wallet_records w' = [rec_a, rec_b] \<and>
         m_oldest_timestamp w' = 5 \<and>
         m_oldest_timestamp w' = Min (creation_timestamp ` set (m_wallet_records w')))"
proof -
  have i: "initial_oldest_timestamp toy_env = Timestamp_max" by (simp add: toy_env_sel)
  from toy_load_ab obtain w' where
    l: "load toy_env (new_WalletContainerStorage toy_env ''main'' toy_key 0)
           (toy_stream (toy_file 2 2 [rec_a, rec_b])) = Inr w'"
    and r: "m_wallet_records w' = [rec_a, rec_b]" "m_oldest_timestamp w' = 5"
    by (cases "load toy_env (new_WalletContainerStorage toy_env ''main'' toy_key 0)
           (toy_stream (toy_file 2 2 [rec_a, rec_b]))") auto
  from C2_oldest_timestamp[where e = toy_env and net = "''main''" and key = toy_key and n = 0
      and f = "toy_stream (toy_file 2 2 [rec_a, rec_b])" and w' = w'] i l
  have "m_oldest_timestamp w' = Min (creation_timestamp ` set (m_wallet_records w'))" by blast
  with i l r show ?thesis by blast
qed

text \<open>
  C2 as stated fails: on a wallet of the net \<open>main\<close> whose \<open>m_oldest_timestamp\<close> is 0,
  \<^verbatim>\<open>on_first_output_found(5)\<close> returns and has raised \<open>m_oldest_timestamp\<close> from 0 to 5.
\<close>

theorem C2_first_output_counterexample:
  "m_oldest_timestamp toy_wallet_z = 0 \<and>
   snd (on_first_output_found toy_env toy_wallet_z 5) = Inr () \<and>
   m_oldest_timestamp (fst (on_first_output_found toy_env toy_wallet_z 5)) = 5 \<and>
   m_oldest_timestamp toy_wallet_z < m_oldest_timestamp (fst (on_first_output_found toy_env toy_wallet_z 5))"
  by (simp add: toy_first_output_result on_first_output_found_oldest toy_wallet_z_sel)
subsection \<open>C3: a key that is already in the wallet\<close>

text \<open>
  C3. When \<^verbatim>\<open>WalletContainerStorage::generate_new_addresses\<close> returns, for every input
  \<open>sks[i]\<close> that is not the zero key and whose derived spend public key the records map
  holds, at a valid index \<open>idx\<close>, when the function is called: if the stored record's
  \<open>creation_timestamp\<close> is strictly larger than \<open>ct\<close>, the record at \<open>idx\<close> is the stored
  one with its timestamp lowered to \<open>ct\<close>, this is the \<open>i\<close>-th record of the result and
  the flag behind \<^verbatim>\<open>rescan_from_ct\<close> is true; if it is not larger, the record at \<open>idx\<close>
  is unchanged and is the \<open>i\<close>-th record of the result. The result has one record for each
  input. When every input is such a key and none of the stored timestamps is larger than
  \<open>ct\<close>, the flag is false, whatever it was before the call, and the records are as they
  were.
\<close>

theorem C3_lower_timestamp:
  assumes g: "generate_new_addresses e w sks ct now rescan_from_ct = (w', rescan, Inr result)"
    and i: "i < length sks" and sk: "sks ! i \<noteq> SecretKey0"
    and pk: "secret_key_to_public_key e (sks ! i) = Some pk"
    and m: "m_records_map w pk = Some idx" and idx: "idx < length (m_wallet_records w)"
  shows "(let stored = m_wallet_records w ! idx
          in if creation_timestamp stored > ct
             then m_wallet_records w' ! idx = stored\<lparr>creation_timestamp := ct\<rparr> \<and>
                  result ! i = stored\<lparr>creation_timestamp := ct\<rparr> \<and> rescan
             else m_wallet_records w' ! idx = stored \<and> result ! i = stored) \<and>
         length result = length sks \<and>
         ((\<forall>j < length sks. sks ! j \<noteq> SecretKey0 \<and>
              (\<exists>pk' idx'. secret_key_to_public_key e (sks ! j) = Some pk' \<and>
                 m_records_map w pk' = Some idx' \<and> idx' < length (m_wallet_records w) \<and>
                 creation_timestamp (m_wallet_records w ! idx') \<le> ct)) \<longrightarrow>
          \<not> rescan \<and> m_wallet_records w' = m_wallet_records w)"
proof -
  from generate_new_addresses_Inr[OF g] obtain w1 w2 where
    f1: "m_wallet_records w1 = m_wallet_records w" "m_records_map w1 = m_records_map w"
    and l: "generate_new_addresses_loop e ct now sks w1 False [] = (w2, rescan, Inr result)"
    and f2: "m_wallet_records w' = m_wallet_records w2"
    by blast
  from m idx have m1: "m_records_map w1 pk = Some idx" and idx1: "idx < length (m_wallet_records w1)"
    by (simp_all add: f1)
  note p = loop_present[OF l i sk pk m1 idx1, unfolded f1 f2[symmetric]]
  have a: "(let stored = m_wallet_records w ! idx
          in if creation_timestamp stored > ct
             then m_wallet_records w' ! idx = stored\<lparr>creation_timestamp := ct\<rparr> \<and>
                  result ! i = stored\<lparr>creation_timestamp := ct\<rparr> \<and> rescan
             else m_wallet_records w' ! idx = stored \<and> result ! i = stored)"
  proof (cases "creation_timestamp (m_wallet_records w ! idx) > ct")
    case True
    then have "min (creation_timestamp (m_wallet_records w ! idx)) ct = ct" by simp
    with p True show ?thesis by (simp add: Let_def)
  next
    case False
    then have "min (creation_timestamp (m_wallet_records w ! idx)) ct
        = creation_timestamp (m_wallet_records w ! idx)" by simp
    with p(1,2) False show ?thesis by (simp add: Let_def)
  qed
  from loop_lowered[OF l] have b: "length result = length sks" by auto
  have c: "\<not> rescan \<and> m_wallet_records w' = m_wallet_records w"
    if all: "\<forall>j < length sks. sks ! j \<noteq> SecretKey0 \<and>
              (\<exists>pk' idx'. secret_key_to_public_key e (sks ! j) = Some pk' \<and>
                 m_records_map w pk' = Some idx' \<and> idx' < length (m_wallet_records w) \<and>
                 creation_timestamp (m_wallet_records w ! idx') \<le> ct)"
  proof -
    from all have "\<forall>sk \<in> set sks. sk \<noteq> SecretKey0 \<and>
      (\<exists>pk idx. secret_key_to_public_key e sk = Some pk \<and> m_records_map w1 pk = Some idx \<and>
         idx < length (m_wallet_records w1) \<and>
         creation_timestamp (m_wallet_records w1 ! idx) \<le> ct)"
      by (simp add: f1 all_set_conv_all_nth)
    from loop_all_present[OF this, of now False "[]"] l
    have "w2 = w1" "rescan = False" by auto
    with f1 f2 show ?thesis by simp
  qed
  from a b c show ?thesis by blast
qed


theorem C3_lower_timestamp_witness:
  "(case generate_new_addresses toy_env toy_wallet_ab [replicate 32 3, replicate 32 5] 6 9 False of
      (w', rescan, r) \<Rightarrow>
        r = Inr [rec_a\<lparr>creation_timestamp := 6\<rparr>, rec_b] \<and> rescan \<and>
        m_wallet_records w' ! 0 = rec_a\<lparr>creation_timestamp := 6\<rparr> \<and>
        m_wallet_records w' ! 1 = rec_b) \<and>
   (case generate_new_addresses toy_env toy_wallet_ab [replicate 32 3, replicate 32 5] 8 9 True of
      (w', rescan, r) \<Rightarrow>
        r = Inr [rec_a, rec_b] \<and> \<not> rescan \<and> m_wallet_records w' = [rec_a, rec_b])"
proof -
  let ?sks = "[replicate 32 3, replicate 32 5] :: SecretKey list"
  have sk: "?sks ! 0 \<noteq> SecretKey0" "?sks ! 1 \<noteq> SecretKey0"
    by (simp_all add: SecretKey0_def sizeof_SecretKey_def)
  have pk: "secret_key_to_public_key toy_env (?sks ! 0) = Some (replicate 32 4)"
    "secret_key_to_public_key toy_env (?sks ! 1) = Some (replicate 32 6)"
    by (simp_all add: toy_env_sel toy_public_def)
  have m: "m_records_map toy_wallet_ab (replicate 32 4) = Some 0"
    "m_records_map toy_wallet_ab (replicate 32 6) = Some 1"
    by (simp_all add: toy_wallet_ab_sel)
  have i: "0 < length (m_wallet_records toy_wallet_ab)" "1 < length (m_wallet_records toy_wallet_ab)"
    "(0::nat) < length ?sks" "(1::nat) < length ?sks"
    by (simp_all add: toy_wallet_ab_sel)
  have r: "m_wallet_records toy_wallet_ab ! 0 = rec_a" "m_wallet_records toy_wallet_ab ! 1 = rec_b"
    "creation_timestamp rec_a = 7" "creation_timestamp rec_b = 5"
    by (simp_all add: toy_wallet_ab_sel rec_a_def rec_b_def)
  obtain w1 where g1: "generate_new_addresses toy_env toy_wallet_ab ?sks 6 9 False =
      (w1, True, Inr [rec_a\<lparr>creation_timestamp := 6\<rparr>, rec_b])"
    using toy_generate_larger
    by (cases "generate_new_addresses toy_env toy_wallet_ab ?sks 6 9 False") auto
  obtain w2 where g2: "generate_new_addresses toy_env toy_wallet_ab ?sks 8 9 True =
      (w2, False, Inr [rec_a, rec_b])"
    using toy_generate_not_larger
    by (cases "generate_new_addresses toy_env toy_wallet_ab ?sks 8 9 True") auto
  from C3_lower_timestamp[OF g1 i(3) sk(1) pk(1) m(1) i(1)]
  have a: "m_wallet_records w1 ! 0 = rec_a\<lparr>creation_timestamp := 6\<rparr>"
    by (simp only: r Let_def) simp
  from C3_lower_timestamp[OF g1 i(4) sk(2) pk(2) m(2) i(2)]
  have b: "m_wallet_records w1 ! 1 = rec_b"
    by (simp only: r Let_def) simp
  have all: "\<forall>j < length ?sks. ?sks ! j \<noteq> SecretKey0 \<and>
              (\<exists>pk' idx'. secret_key_to_public_key toy_env (?sks ! j) = Some pk' \<and>
                 m_records_map toy_wallet_ab pk' = Some idx' \<and>
                 idx' < length (m_wallet_records toy_wallet_ab) \<and>
                 creation_timestamp (m_wallet_records toy_wallet_ab ! idx') \<le> 8)"
  proof (intro allI impI)
    fix j assume "j < length ?sks"
    then have "j = 0 \<or> j = 1" by auto
    then show "?sks ! j \<noteq> SecretKey0 \<and>
              (\<exists>pk' idx'. secret_key_to_public_key toy_env (?sks ! j) = Some pk' \<and>
                 m_records_map toy_wallet_ab pk' = Some idx' \<and>
                 idx' < length (m_wallet_records toy_wallet_ab) \<and>
                 creation_timestamp (m_wallet_records toy_wallet_ab ! idx') \<le> 8)"
    proof
      assume j: "j = 0"
      from sk(1) pk(1) m(1) i(1) show ?thesis unfolding j
        by (intro conjI exI[of _ "replicate 32 4"] exI[of _ 0]) (simp_all only: r, simp_all)
    next
      assume j: "j = 1"
      from sk(2) pk(2) m(2) i(2) show ?thesis unfolding j
        by (intro conjI exI[of _ "replicate 32 6"] exI[of _ 1]) (simp_all only: r, simp_all)
    qed
  qed
  from C3_lower_timestamp[OF g2 i(3) sk(1) pk(1) m(1) i(1)] all
  have c: "m_wallet_records w2 = [rec_a, rec_b]"
    by (simp only: toy_wallet_ab_sel)
  from g1 g2 a b c show ?thesis by simp
qed

subsection \<open>C4: \<^verbatim>\<open>WalletHD::generate_new_addresses\<close>\<close>




subsection \<open>C5: the number of records a V2 container file gives\<close>

text \<open>
  C5. When \<^verbatim>\<open>load_container_storage\<close> succeeds on a file read from its start, the records
  it appends to \<open>m_wallet_records\<close> number exactly \<open>min(file_item_count,
  file_item_capacity)\<close>, whatever the two 64-bit counts on disk are (a count beyond the
  \<^verbatim>\<open>size_t\<close> guard, a file too short for that many records or a record that fails a check
  makes the load fail instead).
\<close>

theorem C5_item_count:
  assumes "load_container_storage e w f = Inr w'" and "pos f = 0"
  shows "\<exists>loaded. m_wallet_records w' = m_wallet_records w @ loaded \<and>
           length loaded = min (file_item_count e (content f)) (file_item_capacity e (content f))"
  using load_container_storage_Inr[OF assms] by auto

theorem C5_item_count_witness:
  "pos (toy_stream (toy_file 2 1 [rec_a, rec_b])) = 0 \<and>
   file_item_capacity toy_env (toy_file 2 1 [rec_a, rec_b]) = 2 \<and>
   file_item_count toy_env (toy_file 2 1 [rec_a, rec_b]) = 1 \<and>
   (\<exists>w'. load_container_storage toy_env new_toy_wallet (toy_stream (toy_file 2 1 [rec_a, rec_b])) = Inr w' \<and>
         length (m_wallet_records w') = 1)"
proof -
  have p: "pos (toy_stream (toy_file 2 1 [rec_a, rec_b])) = 0" by (simp add: toy_stream_def)
  have c: "content (toy_stream (toy_file 2 1 [rec_a, rec_b])) = toy_file 2 1 [rec_a, rec_b]"
    by (simp add: toy_stream_def)
  have cap: "file_item_capacity toy_env (toy_file 2 1 [rec_a, rec_b]) = 2"
    and cnt: "file_item_count toy_env (toy_file 2 1 [rec_a, rec_b]) = 1"
    by (simp_all add: toy_eval)
  have n: "m_wallet_records new_toy_wallet = []"
    by (simp add: new_toy_wallet_def new_WalletContainerStorage_def)
  from toy_load_2_1 obtain w' where
    l: "load_container_storage toy_env new_toy_wallet (toy_stream (toy_file 2 1 [rec_a, rec_b])) = Inr w'"
    by (cases "load_container_storage toy_env new_toy_wallet (toy_stream (toy_file 2 1 [rec_a, rec_b]))") auto
  from C5_item_count[OF l p] obtain loaded where
    a: "m_wallet_records w' = m_wallet_records new_toy_wallet @ loaded" and
    b: "length loaded = min (file_item_count toy_env (content (toy_stream (toy_file 2 1 [rec_a, rec_b]))))
          (file_item_capacity toy_env (content (toy_stream (toy_file 2 1 [rec_a, rec_b]))))"
    by blast
  from b have "length loaded = min 1 2" by (simp only: c cap cnt)
  with a n have "length (m_wallet_records w') = 1" by simp
  with l p cap cnt show ?thesis by blast
qed

subsection \<open>C6: \<^verbatim>\<open>WalletHD::generate_mnemonic\<close>\<close>



subsection \<open>C7: all records track, or none does\<close>

text \<open>
  C7. In a wallet that \<^verbatim>\<open>load_container_storage\<close> loaded with success into a wallet without
  records, either every record's \<open>spend_secret_key\<close> is zero or none is. Record 0 fixes the
  tracking mode: when the records were read from the file and a later one decrypts to a
  record that disagrees with record 0, \<^verbatim>\<open>load_container_storage\<close> throws
  \<open>WALLET_FILE_DECRYPT_ERROR\<close>, and no wallet results.
\<close>

theorem C7_tracking_mode:
  "(load_container_storage e w f = Inr w' \<and> pos f = 0 \<and> m_wallet_records w = [] \<longrightarrow>
      list_all is_tracking (m_wallet_records w') \<or>
      list_all (\<lambda>r. \<not> is_tracking r) (m_wallet_records w')) \<and>
   (load_container_header e w f = Inr (w1, n, encs) \<and> 0 < j \<and> j < length encs \<and>
    is_tracking (decrypt_record e (m_wallet_key w) (encs ! j)) \<noteq>
    is_tracking (decrypt_record e (m_wallet_key w) (encs ! 0)) \<longrightarrow>
      load_container_storage e w f = Inl WALLET_FILE_DECRYPT_ERROR)"
proof (intro conjI impI)
  assume a: "load_container_storage e w f = Inr w' \<and> pos f = 0 \<and> m_wallet_records w = []"
  then have l: "load_container_storage e w f = Inr w'" and p: "pos f = 0" by simp_all
  from load_container_storage_Inr[OF l p] a
  show "list_all is_tracking (m_wallet_records w') \<or>
      list_all (\<lambda>r. \<not> is_tracking r) (m_wallet_records w')" by auto
next
  assume a: "load_container_header e w f = Inr (w1, n, encs) \<and> 0 < j \<and> j < length encs \<and>
    is_tracking (decrypt_record e (m_wallet_key w) (encs ! j)) \<noteq>
    is_tracking (decrypt_record e (m_wallet_key w) (encs ! 0))"
  then have h: "load_container_header e w f = Inr (w1, n, encs)" by simp
  have k: "m_wallet_key w1 = m_wallet_key w"
    using h by (auto simp: load_container_header_def Let_def split: sum.splits if_splits prod.splits)
  from a have "load_records e n 0 False encs w1 = Inl WALLET_FILE_DECRYPT_ERROR"
    by (intro load_records_mixed[of j]) (simp_all add: k)
  then show "load_container_storage e w f = Inl WALLET_FILE_DECRYPT_ERROR"
    by (simp add: load_container_storage_def h)
qed

theorem C7_tracking_mode_witness:
  "(\<exists>w'. load_container_storage toy_env new_toy_wallet (toy_stream (toy_file 2 1 [rec_a, rec_b])) = Inr w' \<and>
         (list_all is_tracking (m_wallet_records w') \<or>
          list_all (\<lambda>r. \<not> is_tracking r) (m_wallet_records w'))) \<and>
   load_container_storage toy_env new_toy_wallet (toy_stream (toy_file 2 2 [rec_a, rec_t])) =
     Inl WALLET_FILE_DECRYPT_ERROR"
proof -
  have p: "pos (toy_stream (toy_file 2 1 [rec_a, rec_b])) = 0" by (simp add: toy_stream_def)
  have n: "m_wallet_records new_toy_wallet = []"
    by (simp add: new_toy_wallet_def new_WalletContainerStorage_def)
  from toy_load_2_1 obtain w' where
    l: "load_container_storage toy_env new_toy_wallet (toy_stream (toy_file 2 1 [rec_a, rec_b])) = Inr w'"
    by (cases "load_container_storage toy_env new_toy_wallet (toy_stream (toy_file 2 1 [rec_a, rec_b]))") auto
  from toy_header_mixed obtain w1 encs where
    h: "load_container_header toy_env new_toy_wallet (toy_stream (toy_file 2 2 [rec_a, rec_t])) = Inr (w1, 2, encs)"
    and e: "length encs = 2"
      "is_tracking (decrypt_record toy_env (m_wallet_key new_toy_wallet) (encs ! 1))"
      "\<not> is_tracking (decrypt_record toy_env (m_wallet_key new_toy_wallet) (encs ! 0))"
    by blast
  have a: "list_all is_tracking (m_wallet_records w') \<or>
          list_all (\<lambda>r. \<not> is_tracking r) (m_wallet_records w')"
    using C7_tracking_mode[where e = toy_env and w = new_toy_wallet and w' = w'
        and f = "toy_stream (toy_file 2 1 [rec_a, rec_b])"] l p n by blast
  have b: "load_container_storage toy_env new_toy_wallet (toy_stream (toy_file 2 2 [rec_a, rec_t])) =
     Inl WALLET_FILE_DECRYPT_ERROR"
    using C7_tracking_mode[where e = toy_env and w = new_toy_wallet
        and f = "toy_stream (toy_file 2 2 [rec_a, rec_t])" and ?w1.0 = w1 and n = 2 and encs = encs
        and j = 1] h e by simp
  from l a b show ?thesis by blast
qed
subsection \<open>C8: \<^verbatim>\<open>WalletHD::payment_queue_remove\<close>\<close>

text \<open>
  C8. \<^verbatim>\<open>WalletHD::payment_queue_remove(tid)\<close> always deletes, in the open transaction, the row
  of the \<open>payment_queue\<close> table stored under the pair of \<^verbatim>\<open>derive_from_key\<close> hashes of
  \<open>db_payment_queue_tid\<close> followed by the bytes of \<open>tid\<close> and of \<open>db_payment_queue_net\<close>
  followed by the current net, and changes nothing else in the tables of the transaction.
  It commits exactly when the first byte of \<open>tid\<close> is 120, the character \<open>x\<close>: then the
  committed tables are those of the transaction and one more commit was made; for any
  other \<open>tid\<close> the committed tables and the number of commits are as before, and the
  deletion stays pending.
\<close>

theorem C8_payment_queue_remove:
  "txn (m_db_dbi (payment_queue_remove_hd e w tid)) =
     (txn (m_db_dbi w))
       \<lparr>payment_queue :=
          (payment_queue (txn (m_db_dbi w)))
            ((derive_from_key e (m_wallet_key w) (as_binary_array ''db_payment_queue_tid'' @ tid),
              derive_from_key e (m_wallet_key w)
                (as_binary_array (''db_payment_queue_net'' @ m_net w))) := None)\<rparr> \<and>
   committed (m_db_dbi (payment_queue_remove_hd e w tid)) =
     (if \<exists>rest. tid = 120 # rest then txn (m_db_dbi (payment_queue_remove_hd e w tid))
      else committed (m_db_dbi w)) \<and>
   commit_count (m_db_dbi (payment_queue_remove_hd e w tid)) =
     (if \<exists>rest. tid = 120 # rest then commit_count (m_db_dbi w) + 1
      else commit_count (m_db_dbi w))"
proof (cases tid)
  case Nil
  then show ?thesis
    by (simp add: payment_queue_remove_hd_def payment_queue_key_def first_byte_is_x_def Let_def)
next
  case (Cons b rest)
  then show ?thesis
    by (simp add: payment_queue_remove_hd_def payment_queue_key_def first_byte_is_x_def
        commit_def Let_def)
qed

theorem C8_payment_queue_remove_witness:
  "payment_queue (txn (m_db_dbi (payment_queue_remove_hd toy_env_tail hd_wallet_q tid_x)))
     (derive_from_key toy_env_tail (replicate 32 1) (as_binary_array ''db_payment_queue_tid'' @ tid_x),
      derive_from_key toy_env_tail (replicate 32 1) (as_binary_array ''db_payment_queue_netmain''))
     = None \<and>
   payment_queue (txn (m_db_dbi (payment_queue_remove_hd toy_env_tail hd_wallet_q tid_x)))
     (derive_from_key toy_env_tail (replicate 32 1) (as_binary_array ''db_payment_queue_tid'' @ tid_y),
      derive_from_key toy_env_tail (replicate 32 1) (as_binary_array ''db_payment_queue_netmain''))
     = Some ([2], [], []) \<and>
   committed (m_db_dbi (payment_queue_remove_hd toy_env_tail hd_wallet_q tid_x)) =
     txn (m_db_dbi (payment_queue_remove_hd toy_env_tail hd_wallet_q tid_x)) \<and>
   commit_count (m_db_dbi (payment_queue_remove_hd toy_env_tail hd_wallet_q tid_x)) = 1 \<and>
   payment_queue (txn (m_db_dbi (payment_queue_remove_hd toy_env_tail hd_wallet_q tid_y)))
     (derive_from_key toy_env_tail (replicate 32 1) (as_binary_array ''db_payment_queue_tid'' @ tid_y),
      derive_from_key toy_env_tail (replicate 32 1) (as_binary_array ''db_payment_queue_netmain''))
     = None \<and>
   payment_queue (txn (m_db_dbi (payment_queue_remove_hd toy_env_tail hd_wallet_q tid_y)))
     (derive_from_key toy_env_tail (replicate 32 1) (as_binary_array ''db_payment_queue_tid'' @ tid_x),
      derive_from_key toy_env_tail (replicate 32 1) (as_binary_array ''db_payment_queue_netmain''))
     = Some ([1], [], []) \<and>
   committed (m_db_dbi (payment_queue_remove_hd toy_env_tail hd_wallet_q tid_y)) = empty_tables \<and>
   commit_count (m_db_dbi (payment_queue_remove_hd toy_env_tail hd_wallet_q tid_y)) = 0"
proof -
  have x: "\<exists>rest. tid_x = 120 # rest" by (simp add: tid_x_def)
  have y: "\<not> (\<exists>rest. tid_y = 120 # rest)" by (simp add: tid_y_def)
  have ne: "derive_from_key toy_env_tail (replicate 32 1)
              (as_binary_array ''db_payment_queue_tid'' @ tid_x) \<noteq>
            derive_from_key toy_env_tail (replicate 32 1)
              (as_binary_array ''db_payment_queue_tid'' @ tid_y)"
    by (simp add: toy_queue_keys)
  from C8_payment_queue_remove[of toy_env_tail hd_wallet_q tid_x]
    C8_payment_queue_remove[of toy_env_tail hd_wallet_q tid_y] x y ne
  show ?thesis
    by (simp add: toy_queue_net hd_wallet_q_dbi)
qed

subsection \<open>C9: \<^verbatim>\<open>get_record\<close> and \<^verbatim>\<open>is_our_address\<close> of the container wallet\<close>

text \<open>
  C9. For every address whose variant is not \<^verbatim>\<open>AccountAddressSimple\<close>, or whose view public
  key differs from the wallet's, \<^verbatim>\<open>WalletContainerStorage::get_record\<close> returns false and
  leaves the record behind its pointer as it was. Consequently \<^verbatim>\<open>is_our_address\<close> on a
  container wallet accepts only addresses of the simple variant that carry the wallet's own
  view public key and a spend public key the records map holds (at a valid index, whose
  record has that spend public key).
\<close>

theorem C9_get_record:
  "(not_simple_with_our_view_key w v_addr \<longrightarrow> get_record w wr v_addr = Inr (False, wr)) \<and>
   (is_our_address w v_addr = Inr True \<longrightarrow>
      (\<exists>spk idx. v_addr = AccountAddressSimple spk (m_view_public_key w) \<and>
         m_records_map w spk = Some idx \<and> idx < length (m_wallet_records w) \<and>
         spend_public_key (m_wallet_records w ! idx) = spk))"
proof (intro conjI impI)
  assume "not_simple_with_our_view_key w v_addr"
  then show "get_record w wr v_addr = Inr (False, wr)"
    by (auto simp: not_simple_with_our_view_key_def get_record_def Let_def split: AccountAddress.splits)
next
  assume a: "is_our_address w v_addr = Inr True"
  show "\<exists>spk idx. v_addr = AccountAddressSimple spk (m_view_public_key w) \<and>
         m_records_map w spk = Some idx \<and> idx < length (m_wallet_records w) \<and>
         spend_public_key (m_wallet_records w ! idx) = spk"
  proof (cases v_addr)
    case (AccountAddressUnlinkable s s_v is_auditable)
    with a show ?thesis by (simp add: is_our_address_def get_record_def)
  next
    case (AccountAddressSimple spk vpk)
    with a show ?thesis
      by (auto simp: is_our_address_def get_record_def Let_def get_actual_records_count_def at_def
          split: option.splits if_splits sum.splits)
  qed
qed

theorem C9_get_record_witness:
  "get_record toy_wallet_ab rec_t (AccountAddressUnlinkable (replicate 32 4) (replicate 32 2) False) =
     Inr (False, rec_t) \<and>
   get_record toy_wallet_ab rec_t (AccountAddressSimple (replicate 32 4) (replicate 32 3)) =
     Inr (False, rec_t) \<and>
   is_our_address toy_wallet_ab (AccountAddressSimple (replicate 32 4) (replicate 32 2)) = Inr True \<and>
   m_records_map toy_wallet_ab (replicate 32 4) = Some 0"
proof -
  have n1: "not_simple_with_our_view_key toy_wallet_ab
      (AccountAddressUnlinkable (replicate 32 4) (replicate 32 2) False)"
    by (simp add: not_simple_with_our_view_key_def)
  have n2: "not_simple_with_our_view_key toy_wallet_ab
      (AccountAddressSimple (replicate 32 4) (replicate 32 3))"
    by (simp add: not_simple_with_our_view_key_def toy_wallet_ab_sel)
  have o: "is_our_address toy_wallet_ab (AccountAddressSimple (replicate 32 4) (replicate 32 2)) = Inr True"
    by (simp add: is_our_address_def get_record_def toy_wallet_ab_sel get_actual_records_count_def
        at_def rec_a_def)
  from C9_get_record[where w = toy_wallet_ab and wr = rec_t
      and v_addr = "AccountAddressUnlinkable (replicate 32 4) (replicate 32 2) False"] n1
  have a: "get_record toy_wallet_ab rec_t
      (AccountAddressUnlinkable (replicate 32 4) (replicate 32 2) False) = Inr (False, rec_t)"
    by blast
  from C9_get_record[where w = toy_wallet_ab and wr = rec_t
      and v_addr = "AccountAddressSimple (replicate 32 4) (replicate 32 3)"] n2
  have b: "get_record toy_wallet_ab rec_t
      (AccountAddressSimple (replicate 32 4) (replicate 32 3)) = Inr (False, rec_t)"
    by blast
  from C9_get_record[where w = toy_wallet_ab
      and v_addr = "AccountAddressSimple (replicate 32 4) (replicate 32 2)"] o
  have c: "m_records_map toy_wallet_ab (replicate 32 4) = Some 0"
    by (auto simp: toy_wallet_ab_sel split: if_splits)
  from a b o c show ?thesis by blast
qed

subsection \<open>C10: \<^verbatim>\<open>WalletHD::generate_new_addresses\<close> on the empty list\<close>

text \<open>
  C10. Called with an empty list of secret keys, \<^verbatim>\<open>WalletHD::generate_new_addresses\<close>
  returns an empty vector and the wallet after the call is the wallet before it:
  \<open>m_used_address_count\<close>, the materialized records, the records map and the database (its
  open transaction, its committed tables and its number of commits) are unchanged, and so is
  the flag behind \<^verbatim>\<open>rescan_from_ct\<close>.
\<close>

theorem C10_generate_new_addresses_hd_empty:
  "generate_new_addresses_hd e w [] ct now rescan_from_ct = (w, rescan_from_ct, Inr [])"
  by (simp add: generate_new_addresses_hd_def)

end
